theory Spec2Isabelle
  imports Complex_Main "HOL-Library.Sublist"
begin

section \<open>Python floats\<close>

text \<open>
  A Python float is an IEEE 754 binary64 number. Every finite double is a rational, so a
  float is modelled by the rational it denotes, and each arithmetic operation computes the
  exact result and rounds it to the nearest double, ties to even. Infinities and NaN are
  not modelled: no operation of the program reaches the overflow threshold on the values it
  is run with (coordinates of a mesh of a few hundred length units, pressures up to 5.4).
\<close>

type_synonym pyfloat = rat

definition round_half_even :: "rat \<Rightarrow> int" where
  "round_half_even x =
     (let f = \<lfloor>x\<rfloor>; r = x - of_int f
      in if r < 1 / 2 then f else if 1 / 2 < r then f + 1 else if even f then f else f + 1)"

function bit_length :: "int \<Rightarrow> nat" where
  \<comment> \<open>\<open>int.bit_length\<close> of a non-negative integer\<close>
  "bit_length n = (if n \<le> 0 then 0 else Suc (bit_length (n div 2)))"
  by pat_completeness auto
termination
  by (relation "measure nat") auto

declare bit_length.simps [simp del]

definition floor_log2 :: "rat \<Rightarrow> int" where
  \<comment> \<open>for \<open>0 < x\<close>: the \<open>e\<close> with \<open>2 ^ e \<le> x < 2 ^ (e + 1)\<close>\<close>
  "floor_log2 x =
     (if 1 \<le> x then int (bit_length \<lfloor>x\<rfloor>) - 1
      else - int (bit_length (- \<lfloor>- (1 / x)\<rfloor> - 1)))"

definition pow2 :: "int \<Rightarrow> rat" where
  "pow2 e = (if 0 \<le> e then 2 ^ nat e else 1 / 2 ^ nat (- e))"

definition round_double :: "rat \<Rightarrow> pyfloat" where
  \<comment> \<open>53 significant bits; below \<open>2 ^ -1022\<close> the spacing stays \<open>2 ^ -1074\<close> (subnormals)\<close>
  "round_double x =
     (if x = 0 then 0
      else let e = max (floor_log2 \<bar>x\<bar>) (- 1022); q = pow2 (e - 52)
           in of_int (round_half_even (x / q)) * q)"

definition float_lit :: "rat \<Rightarrow> pyfloat" where
  \<comment> \<open>a decimal literal of the source text, read as the nearest double\<close>
  "float_lit x = round_double x"

definition fadd :: "pyfloat \<Rightarrow> pyfloat \<Rightarrow> pyfloat" where
  "fadd x y = round_double (x + y)"

definition fsub :: "pyfloat \<Rightarrow> pyfloat \<Rightarrow> pyfloat" where
  "fsub x y = round_double (x - y)"

definition fmul :: "pyfloat \<Rightarrow> pyfloat \<Rightarrow> pyfloat" where
  "fmul x y = round_double (x * y)"

definition py_round :: "pyfloat \<Rightarrow> nat \<Rightarrow> pyfloat" where
  \<comment> \<open>\<open>round(x, ndigits)\<close> on a float: the exact value is rounded to \<open>ndigits\<close> decimals,
      ties to even, and the decimal is read back as the nearest double\<close>
  "py_round x ndigits = round_double (of_int (round_half_even (x * 10 ^ ndigits)) / 10 ^ ndigits)"

section \<open>Exceptions\<close>

text \<open>
  \<open>ValueError\<close> is raised by the Python runtime (\<open>math.isclose\<close> on a negative tolerance,
  \<open>int\<close> on a prompt answer that is no integer); \<open>EngineError\<close> stands for whatever the
  analysis library raises. Both derive from \<open>Exception\<close>, so \<open>except Exception\<close> catches
  every value of this type.
\<close>

datatype py_exception = ValueError string | EngineError string

definition rel_tol :: pyfloat where
  \<comment> \<open>the default \<open>rel_tol=1e-09\<close> of \<open>math.isclose\<close>\<close>
  "rel_tol = float_lit (1 / 10 ^ 9)"

definition isclose :: "pyfloat \<Rightarrow> pyfloat \<Rightarrow> pyfloat \<Rightarrow> py_exception + bool" where
  \<comment> \<open>\<open>math.isclose(a, b, abs_tol=abs_tol)\<close>\<close>
  "isclose a b abs_tol =
     (if rel_tol < 0 \<or> abs_tol < 0 then Inl (ValueError ''tolerances must be non-negative'')
      else if a = b then Inr True
      else let diff = \<bar>fsub b a\<bar>
           in Inr ((diff \<le> \<bar>fmul rel_tol b\<bar> \<or> diff \<le> \<bar>fmul rel_tol a\<bar>) \<or> diff \<le> abs_tol))"

section \<open>The model held by the analysis library\<close>

datatype material =
    ElasticIsotropic int pyfloat pyfloat
  | Elastic int pyfloat
  | ASDConcrete3D int rat rat "rat list" "rat list" "rat list" "rat list" "rat list" "rat list" rat
  | Steel01 int pyfloat pyfloat pyfloat
  | PlateRebar int int pyfloat
  | Concrete01 int pyfloat pyfloat pyfloat pyfloat

datatype section_def =
    LayeredShell int nat "(int \<times> pyfloat) list"
  | Fiber int pyfloat

datatype patch_def = Rect int nat nat pyfloat pyfloat pyfloat pyfloat

type_synonym node = "int \<times> pyfloat \<times> pyfloat \<times> pyfloat"

record element =
  ele_tag :: int
  ele_type :: string
  ele_nodes :: "int list"
  ele_section :: int
  ele_vertical :: "int list"

record nodal_load =
  load_node :: int
  load_values :: "pyfloat list"
  load_pattern :: int

datatype analysis_command =
    Integrator_LoadControl pyfloat nat pyfloat pyfloat
  | Test_NormDispIncr pyfloat nat nat
  | Algorithm_Newton
  | Numberer_RCM
  | Constraints_Plain
  | System_SparseGeneral string
  | Analysis_Static

record model =
  ndm :: nat
  ndf :: nat
  materials :: "material list"
  sections :: "section_def list"
  patches :: "patch_def list"
  node_table :: "node list"
  ele_table :: "element list"
  sp_constraints :: "(int \<times> int list) list"
  time_series :: "(string \<times> int) list"
  patterns :: "(string \<times> int \<times> int) list"
  loads :: "nodal_load list"
  analysis_setup :: "analysis_command list"

definition Model :: "nat \<Rightarrow> nat \<Rightarrow> model" where
  "Model dm df =
     \<lparr>ndm = dm, ndf = df, materials = [], sections = [], patches = [], node_table = [],
      ele_table = [], sp_constraints = [], time_series = [], patterns = [], loads = [],
      analysis_setup = []\<rparr>"

definition nDMaterial :: "model \<Rightarrow> material \<Rightarrow> model" where
  "nDMaterial m mat = m\<lparr>materials := materials m @ [mat]\<rparr>"

definition uniaxialMaterial :: "model \<Rightarrow> material \<Rightarrow> model" where
  "uniaxialMaterial m mat = m\<lparr>materials := materials m @ [mat]\<rparr>"

definition section_cmd :: "model \<Rightarrow> section_def \<Rightarrow> model" where
  "section_cmd m s = m\<lparr>sections := sections m @ [s]\<rparr>"

definition patch :: "model \<Rightarrow> patch_def \<Rightarrow> model" where
  "patch m pt = m\<lparr>patches := patches m @ [pt]\<rparr>"

definition getNodeTags :: "model \<Rightarrow> int list" where
  "getNodeTags m = map fst (node_table m)"

definition nodeCoord :: "model \<Rightarrow> int \<Rightarrow> py_exception + (pyfloat \<times> pyfloat \<times> pyfloat)" where
  "nodeCoord m nid =
     (case map_of (node_table m) nid of
        None \<Rightarrow> Inl (EngineError ''nodeCoord'')
      | Some xyz \<Rightarrow> Inr xyz)"

definition getEleTags :: "model \<Rightarrow> int list" where
  "getEleTags m = map ele_tag (ele_table m)"

definition eleNodes :: "model \<Rightarrow> int \<Rightarrow> py_exception + int list" where
  "eleNodes m tag =
     (case find (\<lambda>e. ele_tag e = tag) (ele_table m) of
        None \<Rightarrow> Inl (EngineError ''eleNodes'')
      | Some e \<Rightarrow> Inr (ele_nodes e))"

definition fix_cmd :: "model \<Rightarrow> int \<Rightarrow> int list \<Rightarrow> model" where
  \<comment> \<open>\<open>model.fix(nid, *flags)\<close>\<close>
  "fix_cmd m nid flags = m\<lparr>sp_constraints := sp_constraints m @ [(nid, flags)]\<rparr>"



section \<open>The analysis library\<close>

text \<open>
  The mesh generator, the numbering of elements created without a tag, the check that
  \<open>model.element\<close> makes of a new element (it raises when it refuses one), the node
  selection of \<open>fixZ\<close> and the solver belong to the analysis library, which is not part of
  the program: they are parameters. The solver may keep state between invocations, so its
  outcome depends on the number of analyses run before as well as on the model; it either
  raises or returns a status together with the nodal displacements it solved for.
\<close>

record mesh_surface =
  surf_nodes :: "node list"
  surf_cells :: "(int \<times> int list) list"
  surf_walk_edge :: "int list list"

type_synonym solution = "(int \<times> pyfloat list) list"

record engine =
  surface_gen :: "nat \<times> nat \<Rightarrow> string \<Rightarrow> int list \<Rightarrow> (int \<times> pyfloat list) list
                    \<Rightarrow> py_exception + mesh_surface"
  frame_tag :: "element list \<Rightarrow> int"
  element_error :: "model \<Rightarrow> element \<Rightarrow> py_exception option"
  fixZ_nodes :: "node list \<Rightarrow> pyfloat \<Rightarrow> int list"
  analyze_gen :: "nat \<Rightarrow> model \<Rightarrow> nat \<Rightarrow> py_exception + (int \<times> solution)"

definition nodeDisp :: "solution \<Rightarrow> int \<Rightarrow> int \<Rightarrow> py_exception + pyfloat" where
  "nodeDisp sol nid dof =
     (case map_of sol nid of
        None \<Rightarrow> Inl (EngineError ''nodeDisp'')
      | Some u \<Rightarrow> if 1 \<le> dof \<and> dof \<le> int (length u) then Inr (u ! nat (dof - 1))
                  else Inl (EngineError ''nodeDisp''))"

definition surface :: "engine \<Rightarrow> model \<Rightarrow> nat \<times> nat \<Rightarrow> string \<Rightarrow> int list
    \<Rightarrow> (int \<times> pyfloat list) list \<Rightarrow> py_exception + (model \<times> mesh_surface)" where
  \<comment> \<open>\<open>model.surface(shape, element=..., args=..., points=...)\<close>: the generated nodes and
      cells are added to the model, the cells as elements of the given type on section
      \<open>args[0]\<close>\<close>
  "surface ops m shape etype args points =
     (case surface_gen ops shape etype args points of
        Inl e \<Rightarrow> Inl e
      | Inr s \<Rightarrow>
          Inr (m\<lparr>node_table := node_table m @ surf_nodes s,
                 ele_table := ele_table m @
                   map (\<lambda>(t, ns). \<lparr>ele_tag = t, ele_type = etype, ele_nodes = ns,
                                    ele_section = hd args, ele_vertical = []\<rparr>) (surf_cells s)\<rparr>, s))"

definition element_cmd :: "engine \<Rightarrow> model \<Rightarrow> string \<Rightarrow> int option \<Rightarrow> int list \<Rightarrow> int
    \<Rightarrow> int list \<Rightarrow> py_exception + model" where
  \<comment> \<open>\<open>model.element(type, tag, nodes, section=..., vertical=...)\<close>; the library numbers
      an element whose tag is \<open>None\<close>, and it may refuse the element by raising\<close>
  "element_cmd ops m etype tag ns sec vert =
     (let e = \<lparr>ele_tag = (case tag of None \<Rightarrow> frame_tag ops (ele_table m) | Some t \<Rightarrow> t),
                ele_type = etype, ele_nodes = ns, ele_section = sec, ele_vertical = vert\<rparr>
      in case element_error ops m e of
           Some err \<Rightarrow> Inl err
         | None \<Rightarrow> Inr (m\<lparr>ele_table := ele_table m @ [e]\<rparr>))"

fun edge_frames :: "engine \<Rightarrow> model \<Rightarrow> int list list \<Rightarrow> py_exception + model" where
  \<comment> \<open>the loop of line 74 over the edge walk of the surface; an exception of
      \<open>model.element\<close> ends it\<close>
  "edge_frames ops m [] = Inr m"
| "edge_frames ops m (ns # nss) =
     (case element_cmd ops m ''PrismFrame'' None ns 5 [0, 0, 1] of
        Inl e \<Rightarrow> Inl e
      | Inr m' \<Rightarrow> edge_frames ops m' nss)"

definition fixZ :: "engine \<Rightarrow> model \<Rightarrow> pyfloat \<Rightarrow> int list \<Rightarrow> model" where
  "fixZ ops m z flags = foldl (\<lambda>m' n. fix_cmd m' n flags) m (fixZ_nodes ops (node_table m) z)"

section \<open>Model generation\<close>

fun fix_at_scan :: "model \<Rightarrow> pyfloat \<Rightarrow> pyfloat \<Rightarrow> pyfloat \<Rightarrow> pyfloat \<Rightarrow> int list \<Rightarrow> int list
    \<Rightarrow> py_exception + int list" where
  "fix_at_scan m x0 y0 z0 tol [] fixed = Inr fixed"
| "fix_at_scan m x0 y0 z0 tol (nid # nids) fixed =
     (case nodeCoord m nid of
        Inl e \<Rightarrow> Inl e
      | Inr (x, y, z) \<Rightarrow>
          (case isclose x x0 tol of
             Inl e \<Rightarrow> Inl e
           | Inr cx \<Rightarrow>
               if \<not> cx then fix_at_scan m x0 y0 z0 tol nids fixed
               else (case isclose y y0 tol of
                       Inl e \<Rightarrow> Inl e
                     | Inr cy \<Rightarrow>
                         if \<not> cy then fix_at_scan m x0 y0 z0 tol nids fixed
                         else (case isclose z z0 tol of
                                 Inl e \<Rightarrow> Inl e
                               | Inr cz \<Rightarrow>
                                   if cz then fix_at_scan m x0 y0 z0 tol nids (fixed @ [nid])
                                   else fix_at_scan m x0 y0 z0 tol nids fixed))))"

definition fix_at :: "model \<Rightarrow> pyfloat \<Rightarrow> pyfloat \<Rightarrow> pyfloat \<Rightarrow> pyfloat \<Rightarrow> py_exception + model" where
  "fix_at m x0 y0 z0 tol =
     (case fix_at_scan m x0 y0 z0 tol (getNodeTags m) [] of
        Inl e \<Rightarrow> Inl e
      | Inr fixed \<Rightarrow> Inr (foldl (\<lambda>m' n. fix_cmd m' n [1, 1, 1, 1, 1, 1]) m fixed))"

definition eval_ASDConcrete3D :: "model \<Rightarrow> rat \<Rightarrow> model" where
  \<comment> \<open>the script given to \<open>model.eval\<close>, with \<open>Econcr\<close> substituted\<close>
  "eval_ASDConcrete3D m Econcr =
     nDMaterial m
       (ASDConcrete3D 1 Econcr (2 / 10)
          [0, 9 / 10 ^ 5, 15 / 10 ^ 5, 507 / 10 ^ 5, 250501 / 10 ^ 7, 250501 / 10 ^ 6]
          [0, 27 / 10, 3, 6 / 10, 3 / 10 ^ 3, 3 / 10 ^ 3]
          [0, 0, 0, 960552268244576 / 10 ^ 15, 9999800399998403 / 10 ^ 16,
           9999995660869531 / 10 ^ 16]
          [0, 5 / 10 ^ 4, 6666666666666666 / 10 ^ 19, 8333333333333333 / 10 ^ 19, 1 / 10 ^ 3,
           11666666666666665 / 10 ^ 19, 13333333333333333 / 10 ^ 19, 15 / 10 ^ 4,
           16666666666666666 / 10 ^ 19, 18333333333333333 / 10 ^ 19, 2 / 10 ^ 3,
           18327272727272728 / 10 ^ 17, 18377272727272728 / 10 ^ 17]
          [0, 15, 19282032302755088 / 10 ^ 15, 22459666924148337 / 10 ^ 15,
           24852813742385703 / 10 ^ 15, 266515138991168 / 10 ^ 13, 27979589711327122 / 10 ^ 15,
           2892304845413264 / 10 ^ 14, 2954451150103322 / 10 ^ 14, 29891252930760572 / 10 ^ 15,
           30, 3, 3]
          [0, 0, 0, 0, 0, 0, 0, 0, - (2220446049250313 / 10 ^ 31), 0, 0,
           9981618744961699 / 10 ^ 16, 9981786141748574 / 10 ^ 16]
          (897663211186248 / 10 ^ 14))"

definition define_materials :: "model \<Rightarrow> model" where
  \<comment> \<open>lines 21 to 60 of \<open>create_model\<close>: materials and sections\<close>
  "define_materials m0 =
     (let cover_1 = float_lit (125 / 100); rebar = 1; total = 6;
          core = fsub (fsub total (fmul 2 cover_1)) (2 * rebar);
          Econcr = 3600;
          linear = False;
          m = (if linear
               then uniaxialMaterial
                      (nDMaterial m0 (ElasticIsotropic 1 Econcr (float_lit (2 / 10))))
                      (Elastic 2 30000)
               else uniaxialMaterial (eval_ASDConcrete3D m0 Econcr)
                      (Steel01 2 60 30000 (float_lit (1 / 100))));
          m = nDMaterial m (PlateRebar 3 2 0);
          m = nDMaterial m (PlateRebar 4 2 90);
          m = section_cmd m
                (LayeredShell 1 7
                   [(1, cover_1), (3, rebar), (4, rebar), (1, core), (4, rebar), (3, rebar),
                    (1, cover_1)]);
          m = uniaxialMaterial m
                (Concrete01 6 (- 6) (- float_lit (4 / 1000)) (- 5) (- float_lit (14 / 1000)));
          m = section_cmd m (Fiber 5 1);
          m = patch m (Rect 6 10 10 (- float_lit (1 / 2)) (- float_lit (1 / 2))
                         (float_lit (1 / 2)) (float_lit (1 / 2)))
      in m)"

definition points :: "(int \<times> pyfloat list) list" where
  "points =
     [(1, [0, 0, 0]),
      (2, [fmul (- float_lit (33282 / 1000)) 12, 0, fmul (float_lit (49923 / 1000)) 12]),
      (3, [0, 0, fmul (float_lit (72111 / 1000)) 12]),
      (4, [fmul (float_lit (33282 / 1000)) 12, 0, fmul (float_lit (22077 / 1000)) 12])]"

definition build_geometry :: "engine \<Rightarrow> py_exception + model" where
  \<comment> \<open>lines 15 to 81 of \<open>create_model\<close>: materials, the meshed surface, the frame elements
      along its edge and the two calls of \<open>fixZ\<close>\<close>
  "build_geometry ops =
     (let m = Model 3 6;
          m = define_materials m;
          nx = 10; ny = 10
      in case surface ops m (nx, ny) ''ShellMITC4'' [1] points of
           Inl e \<Rightarrow> Inl e
         | Inr (m, surf) \<Rightarrow>
             (case edge_frames ops m (surf_walk_edge surf) of
                Inl e \<Rightarrow> Inl e
              | Inr m \<Rightarrow>
                  (let m = fixZ ops m 0 [1, 1, 1, 1, 1, 1];
                       m = fixZ ops m (fmul (float_lit (72111 / 1000)) 12) [1, 1, 1, 1, 1, 1]
                   in Inr m)))"

definition apply_fixities :: "model \<Rightarrow> py_exception + model" where
  \<comment> \<open>lines 94 to 96 of \<open>create_model\<close>: the three calls of \<open>fix_at\<close>\<close>
  "apply_fixities m =
     (case fix_at m (fmul (- float_lit (33282 / 1000)) 12) 0
             (fmul (float_lit (49923 / 1000)) 12) (float_lit (1 / 10)) of
        Inl e \<Rightarrow> Inl e
      | Inr m \<Rightarrow>
          (case fix_at m (fmul (float_lit (33282 / 1000)) 12) 0
                  (fmul (float_lit (22077 / 1000)) 12) (float_lit (1 / 10)) of
             Inl e \<Rightarrow> Inl e
           | Inr m \<Rightarrow>
               fix_at m 0 0 (fmul (float_lit (360555 / 10000)) 12) 1))"

definition create_model :: "engine \<Rightarrow> bool \<Rightarrow> py_exception + model" where
  "create_model ops walk_edge =
     (case build_geometry ops of
        Inl e \<Rightarrow> Inl e
      | Inr m \<Rightarrow> apply_fixities m)"

section \<open>One load step\<close>

definition load_cmd :: "model \<Rightarrow> int \<Rightarrow> pyfloat list \<Rightarrow> int \<Rightarrow> model" where
  \<comment> \<open>\<open>model.load(nid, *values, pattern=pat)\<close>\<close>
  "load_cmd m nid vals pat =
     m\<lparr>loads := loads m @ [\<lparr>load_node = nid, load_values = vals, load_pattern = pat\<rparr>]\<rparr>"

fun load_elements :: "model \<Rightarrow> pyfloat \<Rightarrow> int list \<Rightarrow> py_exception + model" where
  "load_elements m p [] = Inr m"
| "load_elements m p (ele # eles) =
     (case eleNodes m ele of
        Inl e \<Rightarrow> Inl e
      | Inr nids \<Rightarrow>
          load_elements (foldl (\<lambda>m' nid. load_cmd m' nid [0, - p, 0, 0, 0, 0] 1) m nids) p eles)"

definition apply_pressure :: "model \<Rightarrow> pyfloat \<Rightarrow> py_exception + model" where
  \<comment> \<open>lines 104 to 114 of \<open>static_analysis\<close>: time series, load pattern and nodal loads\<close>
  "apply_pressure m p =
     (let m = m\<lparr>time_series := time_series m @ [(''Linear'', 1)]\<rparr>;
          m = m\<lparr>patterns := patterns m @ [(''Plain'', 1, 1)]\<rparr>;
          ele_tags = getEleTags m
      in load_elements m p ele_tags)"

definition static_analysis :: "engine \<Rightarrow> nat \<Rightarrow> model \<Rightarrow> pyfloat
    \<Rightarrow> py_exception + (int \<times> model \<times> solution)" where
  \<comment> \<open>\<open>n\<close> is the number of analyses the library has run before; the result is the status
      that the source returns, with the model as the call leaves it and the displacements
      that \<open>model.nodeDisp\<close> reads afterwards\<close>
  "static_analysis ops n m p =
     (case apply_pressure m p of
        Inl e \<Rightarrow> Inl e
      | Inr m \<Rightarrow>
          (let m = m\<lparr>analysis_setup := analysis_setup m @
                      [Integrator_LoadControl 1 1 1 10,
                       Test_NormDispIncr (float_lit (1 / 100)) 30 2,
                       Algorithm_Newton, Numberer_RCM, Constraints_Plain,
                       System_SparseGeneral ''-piv'', Analysis_Static]\<rparr>
           in case analyze_gen ops n m 1 of
                Inl e \<Rightarrow> Inl e
              | Inr (res, sol) \<Rightarrow> Inr (res, m, sol)))"

section \<open>Files and console\<close>

text \<open>
  A CSV file is the list of the rows written to it, a row the list of the values given to
  \<open>writerow\<close>. The file system holds the files the run has written, in the order of their
  creation.
\<close>

datatype cell = CStr string | CInt int | CFloat pyfloat

type_synonym csv_row = "cell list"

type_synonym file_system = "(string \<times> csv_row list) list"

fun open_w :: "string \<Rightarrow> file_system \<Rightarrow> file_system" where
  \<comment> \<open>\<open>open(name, 'w')\<close>: an existing file is emptied\<close>
  "open_w name [] = [(name, [])]"
| "open_w name ((n, rows) # fs) =
     (if n = name then (n, []) # fs else (n, rows) # open_w name fs)"

fun writerow :: "string \<Rightarrow> csv_row \<Rightarrow> file_system \<Rightarrow> file_system" where
  "writerow name row [] = []"
| "writerow name row ((n, rows) # fs) =
     (if n = name then (n, rows @ [row]) # fs else (n, rows) # writerow name row fs)"

definition digit_char :: "int \<Rightarrow> char" where
  "digit_char d = ''0123456789'' ! nat d"

function digits10 :: "int \<Rightarrow> string" where
  \<comment> \<open>the decimal digits of a non-negative integer\<close>
  "digits10 n = (if n < 10 then [digit_char n] else digits10 (n div 10) @ [digit_char (n mod 10)])"
  by pat_completeness auto
termination
  by (relation "measure nat") auto

declare digits10.simps [simp del]

definition str_int :: "int \<Rightarrow> string" where
  \<comment> \<open>an integer inside an f-string\<close>
  "str_int i = (if i < 0 then CHR ''-'' # digits10 (- i) else digits10 i)"

datatype message =
    Wrote_coordinates string
  | Analysis_threw pyfloat py_exception
  | Failed_to_converge int pyfloat
  | Wrote_displacements string int pyfloat
  | Recorded_disp int int pyfloat

record run_state =
  files :: file_system
  stdout :: "message list"
  analyses :: nat
  raised :: "py_exception option"

fun write_coord_rows :: "model \<Rightarrow> string \<Rightarrow> int list \<Rightarrow> file_system
    \<Rightarrow> (py_exception \<times> file_system) + file_system" where
  "write_coord_rows m f [] fs = Inr fs"
| "write_coord_rows m f (nid # nids) fs =
     (case nodeCoord m nid of
        Inl e \<Rightarrow> Inl (e, fs)
      | Inr (x, y, z) \<Rightarrow>
          write_coord_rows m f nids (writerow f [CInt nid, CFloat x, CFloat y, CFloat z] fs))"

fun write_disp_rows :: "solution \<Rightarrow> string \<Rightarrow> int list \<Rightarrow> file_system
    \<Rightarrow> (py_exception \<times> file_system) + file_system" where
  "write_disp_rows sol f [] fs = Inr fs"
| "write_disp_rows sol f (nid # nids) fs =
     (case nodeDisp sol nid 1 of
        Inl e \<Rightarrow> Inl (e, fs)
      | Inr ux \<Rightarrow>
          (case nodeDisp sol nid 2 of
             Inl e \<Rightarrow> Inl (e, fs)
           | Inr uy \<Rightarrow>
               (case nodeDisp sol nid 3 of
                  Inl e \<Rightarrow> Inl (e, fs)
                | Inr uz \<Rightarrow>
                    write_disp_rows sol f nids
                      (writerow f [CInt nid, CFloat ux, CFloat uy, CFloat uz] fs))))"

section \<open>The driver\<close>

definition record_step :: "string \<Rightarrow> string \<Rightarrow> int \<Rightarrow> model \<Rightarrow> solution \<Rightarrow> pyfloat \<Rightarrow> pyfloat
    \<Rightarrow> int \<Rightarrow> run_state \<Rightarrow> (pyfloat \<times> int \<times> run_state) + run_state" where
  \<comment> \<open>steps 4a, 4b and "prepare next step" of the loop body; the source has this text twice,
      once per branch of \<open>if linear\<close>, with the two file names. \<open>Inl\<close> carries the loop
      variables into the next iteration, \<open>Inr\<close> is the state in which an exception leaves
      the loop\<close>
  "record_step disp_fname history_fname target_nid m sol dp p itr st =
     (case write_disp_rows sol disp_fname (getNodeTags m)
             (writerow disp_fname [CStr ''Node'', CStr ''ux'', CStr ''uy'', CStr ''uz'']
                (open_w disp_fname (files st))) of
        Inl (e, fs) \<Rightarrow> Inr (st\<lparr>files := fs, raised := Some e\<rparr>)
      | Inr fs \<Rightarrow>
          (let st = st\<lparr>files := fs,
                        stdout := stdout st @ [Wrote_displacements disp_fname itr p]\<rparr>
           in case nodeDisp sol target_nid 1 of
                Inl e \<Rightarrow> Inr (st\<lparr>raised := Some e\<rparr>)
              | Inr ux \<Rightarrow>
                  (case nodeDisp sol target_nid 2 of
                     Inl e \<Rightarrow> Inr (st\<lparr>raised := Some e\<rparr>)
                   | Inr uy \<Rightarrow>
                       (case nodeDisp sol target_nid 3 of
                          Inl e \<Rightarrow> Inr (st\<lparr>raised := Some e\<rparr>)
                        | Inr uz \<Rightarrow>
                            Inl (fadd p dp, itr + 1,
                                 st\<lparr>files := writerow history_fname
                                      [CInt itr, CFloat (py_round p 3), CFloat ux, CFloat uy,
                                       CFloat uz] (files st),
                                    stdout := stdout st @
                                      [Recorded_disp target_nid itr p]\<rparr>)))))"

definition ramp_body :: "engine \<Rightarrow> int \<Rightarrow> string \<Rightarrow> pyfloat \<Rightarrow> pyfloat \<Rightarrow> int \<Rightarrow> run_state
    \<Rightarrow> (pyfloat \<times> int \<times> run_state) + run_state" where
  "ramp_body ops target_nid history_fname dp p itr st =
     (case create_model ops False of
        Inl e \<Rightarrow> Inr (st\<lparr>raised := Some e\<rparr>)
      | Inr m \<Rightarrow>
          (case static_analysis ops (analyses st) m p of
             Inl e \<Rightarrow>
               Inr (st\<lparr>analyses := Suc (analyses st),
                       stdout := stdout st @ [Analysis_threw p e]\<rparr>)
           | Inr (res, m, sol) \<Rightarrow>
               (let st = st\<lparr>analyses := Suc (analyses st)\<rparr>
                in if res \<noteq> 0
                   then Inr (st\<lparr>stdout := stdout st @ [Failed_to_converge itr p]\<rparr>)
                   else (let linear = False
                         in if linear
                            then record_step
                                   (''node_displacements_'' @ str_int itr @ ''_linear.csv'')
                                   history_fname target_nid m sol dp p itr st
                            else record_step
                                   (''node_displacements_'' @ str_int itr @ ''_nonlinear.csv'')
                                   history_fname target_nid m sol dp p itr st))))"

partial_function (option) ramp :: "engine \<Rightarrow> int \<Rightarrow> string \<Rightarrow> pyfloat \<Rightarrow> pyfloat \<Rightarrow> int
    \<Rightarrow> run_state \<Rightarrow> run_state option" where
  \<comment> \<open>\<open>while p <= 5.0: ...\<close>; \<open>None\<close> is a loop that never ends\<close>
  "ramp ops target_nid history_fname dp p itr st =
     (if p \<le> 5
      then (case ramp_body ops target_nid history_fname dp p itr st of
              Inl (p', itr', st') \<Rightarrow> ramp ops target_nid history_fname dp p' itr' st'
            | Inr st' \<Rightarrow> Some st')
      else Some st)"

declare ramp.simps [code]

definition main_setup :: "engine \<Rightarrow> py_exception + int \<Rightarrow> run_state + (int \<times> string \<times> run_state)" where
  \<comment> \<open>steps 1 and 2 of \<open>main\<close>, up to the header of the history file. \<open>prompt\<close> is the
      outcome of \<open>int(input(...))\<close>. \<open>Inl\<close> is the state in which an exception ends the run\<close>
  "main_setup ops prompt =
     (let st = \<lparr>files = [], stdout = [], analyses = 0, raised = None\<rparr>
      in case create_model ops False of
           Inl e \<Rightarrow> Inl (st\<lparr>raised := Some e\<rparr>)
         | Inr model0 \<Rightarrow>
             (let coord_fname = ''node_coordinates.csv''
              in case write_coord_rows model0 coord_fname (getNodeTags model0)
                        (writerow coord_fname [CStr ''Node'', CStr ''x'', CStr ''y'', CStr ''z'']
                           (open_w coord_fname (files st))) of
                   Inl (e, fs) \<Rightarrow> Inl (st\<lparr>files := fs, raised := Some e\<rparr>)
                 | Inr fs \<Rightarrow>
                     (let st = st\<lparr>files := fs, stdout := stdout st @ [Wrote_coordinates coord_fname]\<rparr>
                      in case prompt of
                           Inl e \<Rightarrow> Inl (st\<lparr>raised := Some e\<rparr>)
                         | Inr target_nid \<Rightarrow>
                             (let linear = False;
                                  history_fname =
                                    (if linear
                                     then ''node_'' @ str_int target_nid @ ''_disp_history_linear.csv''
                                     else ''node_'' @ str_int target_nid @
                                            ''_disp_history_nonlinear.csv'');
                                  st = st\<lparr>files := writerow history_fname
                                            [CStr ''Iteration'', CStr ''p'', CStr ''ux'', CStr ''uy'',
                                             CStr ''uz'']
                                            (open_w history_fname (files st))\<rparr>
                              in Inr (target_nid, history_fname, st)))))"

definition main :: "engine \<Rightarrow> py_exception + int \<Rightarrow> run_state option" where
  "main ops prompt =
     (case main_setup ops prompt of
        Inl st \<Rightarrow> Some st
      | Inr (target_nid, history_fname, st) \<Rightarrow>
          (let p = 0; dp = float_lit (45 / 100); itr = 1
           in ramp ops target_nid history_fname dp p itr st))"

section \<open>Notions used in the statements\<close>

definition pressure :: "nat \<Rightarrow> pyfloat" where
  \<comment> \<open>the value of \<open>p\<close> after \<open>k\<close> executions of \<open>p += dp\<close>, starting from \<open>0.0\<close>\<close>
  "pressure k = ((\<lambda>p. fadd p (float_lit (45 / 100))) ^^ k) 0"

primrec loop_head :: "engine \<Rightarrow> int \<Rightarrow> string \<Rightarrow> pyfloat \<Rightarrow> pyfloat \<times> int \<times> run_state \<Rightarrow> nat
    \<Rightarrow> (pyfloat \<times> int \<times> run_state) option" where
  \<comment> \<open>the loop variables when the loop test is evaluated after \<open>n\<close> complete iterations;
      \<open>None\<close> when the loop has ended before\<close>
  "loop_head ops target_nid history_fname dp s0 0 = Some s0"
| "loop_head ops target_nid history_fname dp s0 (Suc n) =
     (case loop_head ops target_nid history_fname dp s0 n of
        None \<Rightarrow> None
      | Some (p, itr, st) \<Rightarrow>
          if p \<le> 5
          then (case ramp_body ops target_nid history_fname dp p itr st of
                  Inl s \<Rightarrow> Some s
                | Inr st' \<Rightarrow> None)
          else None)"

definition loop_state :: "engine \<Rightarrow> py_exception + int \<Rightarrow> nat
    \<Rightarrow> (int \<times> string \<times> pyfloat \<times> int \<times> run_state) option" where
  \<comment> \<open>\<open>loop_state ops prompt k = Some (target_nid, history_fname, p, itr, st)\<close>: the run of
      \<open>main\<close> completes \<open>k\<close> iterations of the loop and then evaluates the loop test with
      these variables; the body is entered once more when \<open>p \<le> 5\<close>\<close>
  "loop_state ops prompt k =
     (case main_setup ops prompt of
        Inl st \<Rightarrow> None
      | Inr (target_nid, history_fname, st0) \<Rightarrow>
          (case loop_head ops target_nid history_fname (float_lit (45 / 100)) (0, 1, st0) k of
             None \<Rightarrow> None
           | Some (p, itr, st) \<Rightarrow> Some (target_nid, history_fname, p, itr, st)))"

definition snapshot_files :: "run_state \<Rightarrow> string list" where
  "snapshot_files st = filter (prefix ''node_displacements_'') (map fst (files st))"

definition data_rows :: "run_state \<Rightarrow> string \<Rightarrow> csv_row list" where
  \<comment> \<open>the rows of a file below its header\<close>
  "data_rows st f = (case map_of (files st) f of None \<Rightarrow> [] | Some rows \<Rightarrow> tl rows)"

definition history_name :: "int \<Rightarrow> string" where
  "history_name target_nid = ''node_'' @ str_int target_nid @ ''_disp_history_nonlinear.csv''"

definition snapshot_name :: "int \<Rightarrow> string" where
  "snapshot_name itr = ''node_displacements_'' @ str_int itr @ ''_nonlinear.csv''"

definition answered :: "solution \<Rightarrow> int \<Rightarrow> bool" where
  \<comment> \<open>the three translations of the node can be read from the solution\<close>
  "answered sol nid = list_all (\<lambda>dof. \<not> isl (nodeDisp sol nid dof)) [1, 2, 3]"

definition step_accepted :: "engine \<Rightarrow> int \<Rightarrow> nat \<Rightarrow> bool" where
  \<comment> \<open>the analysis that iteration \<open>k + 1\<close> of the loop runs returns 0, and the displacements
      of every node and of the tracked node can be read afterwards\<close>
  "step_accepted ops target_nid k =
     (case create_model ops False of
        Inl e \<Rightarrow> False
      | Inr m \<Rightarrow>
          (case static_analysis ops k m (pressure k) of
             Inl e \<Rightarrow> False
           | Inr (res, m', sol) \<Rightarrow>
               res = 0 \<and> list_all (answered sol) (getNodeTags m' @ [target_nid])))"


definition close_to :: "pyfloat \<Rightarrow> pyfloat \<Rightarrow> pyfloat \<Rightarrow> bool" where
  \<comment> \<open>the test of \<open>math.isclose\<close> on non-negative tolerances: the values are equal, or their
      computed difference is within the relative tolerance of either, or within \<open>tol\<close>\<close>
  "close_to a b tol =
     (a = b \<or> \<bar>fsub b a\<bar> \<le> \<bar>fmul rel_tol b\<bar> \<or> \<bar>fsub b a\<bar> \<le> \<bar>fmul rel_tol a\<bar>
      \<or> \<bar>fsub b a\<bar> \<le> tol)"

definition node_matches :: "model \<Rightarrow> pyfloat \<Rightarrow> pyfloat \<Rightarrow> pyfloat \<Rightarrow> pyfloat \<Rightarrow> int \<Rightarrow> bool" where
  "node_matches m x0 y0 z0 tol nid =
     (case nodeCoord m nid of
        Inl e \<Rightarrow> False
      | Inr (x, y, z) \<Rightarrow> close_to x x0 tol \<and> close_to y y0 tol \<and> close_to z z0 tol)"

definition adjacency :: "model \<Rightarrow> int \<Rightarrow> nat" where
  \<comment> \<open>the number of elements that reference the node\<close>
  "adjacency m nid = length (filter (\<lambda>e. nid \<in> set (ele_nodes e)) (ele_table m))"

definition pressure_loads :: "model \<Rightarrow> pyfloat \<Rightarrow> nodal_load list" where
  \<comment> \<open>one load per element and per node of the element, in the order of the loop\<close>
  "pressure_loads m p =
     concat (map (\<lambda>e. map (\<lambda>nid. \<lparr>load_node = nid, load_values = [0, - p, 0, 0, 0, 0],
                                      load_pattern = 1\<rparr>) (ele_nodes e))
               (ele_table m))"

definition solver_input :: "model \<Rightarrow> pyfloat \<Rightarrow> py_exception + model" where
  \<comment> \<open>the model on which \<open>static_analysis\<close> calls \<open>model.analyze(1)\<close>: loads and analysis
      commands of lines 104 to 123 added\<close>
  "solver_input m p =
     (case apply_pressure m p of
        Inl e \<Rightarrow> Inl e
      | Inr m \<Rightarrow>
          Inr (m\<lparr>analysis_setup := analysis_setup m @
                 [Integrator_LoadControl 1 1 1 10,
                  Test_NormDispIncr (float_lit (1 / 100)) 30 2,
                  Algorithm_Newton, Numberer_RCM, Constraints_Plain,
                  System_SparseGeneral ''-piv'', Analysis_Static]\<rparr>))"


definition run_inv :: "run_state \<Rightarrow> int \<Rightarrow> nat \<Rightarrow> pyfloat \<times> int \<times> run_state \<Rightarrow> bool" where
  \<comment> \<open>what holds of the loop variables after \<open>k\<close> complete iterations of a run that left
      \<open>main_setup\<close> in state \<open>st0\<close>\<close>
  "run_inv st0 target_nid k s =
     (case s of
        (p, itr, st) \<Rightarrow>
          k \<le> 12 \<and> p = pressure k \<and> itr = int k + 1 \<and> analyses st = k \<and> raised st = None
          \<and> map fst (files st)
              = ''node_coordinates.csv'' # history_name target_nid
                # map (\<lambda>j. snapshot_name (int j + 1)) [0..<k]
          \<and> map_of (files st) ''node_coordinates.csv''
              = map_of (files st0) ''node_coordinates.csv''
          \<and> (\<exists>rows. map_of (files st) (history_name target_nid)
                        = Some ([CStr ''Iteration'', CStr ''p'', CStr ''ux'', CStr ''uy'',
                                 CStr ''uz''] # rows)
                      \<and> map (take 2) rows
                        = map (\<lambda>j. [CInt (int j + 1), CFloat (py_round (pressure j) 3)]) [0..<k]))"

definition stub_engine :: "(nat \<Rightarrow> py_exception + int) \<Rightarrow> engine" where
  \<comment> \<open>a mesh of one cell on the four corner points; the solver gives the outcome
      \<open>outcome n\<close> on its \<open>n\<close>-th run and reports zero displacements\<close>
  "stub_engine outcome =
     \<lparr>surface_gen = (\<lambda>shape etype args pts.
         Inr \<lparr>surf_nodes = map (\<lambda>(t, c). (t, c ! 0, c ! 1, c ! 2)) pts,
              surf_cells = [(1, map fst pts)],
              surf_walk_edge = [[1, 2], [2, 3], [3, 4], [4, 1]]\<rparr>),
      frame_tag = (\<lambda>es. int (length es) + 1),
      element_error = (\<lambda>m e. None),
      fixZ_nodes = (\<lambda>ns z. map fst (filter (\<lambda>(n, x, y, zz). zz = z) ns)),
      analyze_gen = (\<lambda>n m k.
         case outcome n of
           Inl e \<Rightarrow> Inl e
         | Inr res \<Rightarrow> Inr (res, map (\<lambda>(t, c). (t, [0, 0, 0, 0, 0, 0])) (node_table m)))\<rparr>"


definition two_element_model :: model where
  \<comment> \<open>a shell cell and a frame member along its first edge\<close>
  "two_element_model =
     (Model 3 6)\<lparr>ele_table :=
       [\<lparr>ele_tag = 1, ele_type = ''ShellMITC4'', ele_nodes = [1, 2, 3, 4], ele_section = 1,
         ele_vertical = []\<rparr>,
        \<lparr>ele_tag = 2, ele_type = ''PrismFrame'', ele_nodes = [1, 2], ele_section = 5,
         ele_vertical = [0, 0, 1]\<rparr>]\<rparr>"

definition converging_engine :: engine where
  "converging_engine = stub_engine (\<lambda>n. Inr 0)"

definition failing_engine :: engine where
  \<comment> \<open>the third analysis does not converge\<close>
  "failing_engine = stub_engine (\<lambda>n. if n = 2 then Inr 1 else Inr 0)"

definition raising_engine :: engine where
  "raising_engine = stub_engine (\<lambda>n. Inl (EngineError ''analyze''))"

section \<open>Float arithmetic on the constants of the program\<close>

lemma floor_rat_numeral_div: "\<lfloor>numeral a / numeral b :: rat\<rfloor> = numeral a div numeral b"
  by (metis floor_divide_of_int_eq of_int_numeral)

lemma floor_rat_minus_numeral_div:
  "\<lfloor>- (numeral a / numeral b) :: rat\<rfloor> = - numeral a div numeral b"
  by (metis divide_minus_left floor_divide_of_int_eq of_int_neg_numeral of_int_numeral)

lemmas float_eval = round_double_def floor_log2_def bit_length.simps pow2_def round_half_even_def
  Let_def float_lit_def fadd_def fsub_def fmul_def py_round_def floor_rat_numeral_div
  floor_rat_minus_numeral_div

lemma rel_tol_value: "rel_tol = 4835703278458517 / 4835703278458516698824704"
  unfolding rel_tol_def by (simp add: float_eval)

lemma dp_value: "float_lit (45 / 100) = 8106479329266893 / 18014398509481984"
  by (simp add: float_eval)

lemma pressure_Suc: "pressure (Suc k) = fadd (pressure k) (float_lit (45 / 100))"
  by (simp add: pressure_def)

lemma pressure_0: "pressure 0 = 0"
  by (simp add: pressure_def)

lemma pressure_1: "pressure 1 = 8106479329266893 / 18014398509481984"
proof -
  have "pressure 1 = fadd (pressure 0) (float_lit (45 / 100))"
    by (simp add: pressure_def eval_nat_numeral)
  also have "\<dots> = 8106479329266893 / 18014398509481984"
    unfolding pressure_0 dp_value by (simp add: float_eval)
  finally show ?thesis .
qed

lemma pressure_2: "pressure 2 = 8106479329266893 / 9007199254740992"
proof -
  have "pressure 2 = fadd (pressure 1) (float_lit (45 / 100))"
    by (simp add: pressure_def eval_nat_numeral)
  also have "\<dots> = 8106479329266893 / 9007199254740992"
    unfolding pressure_1 dp_value by (simp add: float_eval)
  finally show ?thesis .
qed

lemma pressure_3: "pressure 3 = 3039929748475085 / 2251799813685248"
proof -
  have "pressure 3 = fadd (pressure 2) (float_lit (45 / 100))"
    by (simp add: pressure_def eval_nat_numeral)
  also have "\<dots> = 3039929748475085 / 2251799813685248"
    unfolding pressure_2 dp_value by (simp add: float_eval)
  finally show ?thesis .
qed

lemma pressure_4: "pressure 4 = 8106479329266893 / 4503599627370496"
proof -
  have "pressure 4 = fadd (pressure 3) (float_lit (45 / 100))"
    by (simp add: pressure_def eval_nat_numeral)
  also have "\<dots> = 8106479329266893 / 4503599627370496"
    unfolding pressure_3 dp_value by (simp add: float_eval)
  finally show ?thesis .
qed

lemma pressure_5: "pressure 5 = 9 / 4"
proof -
  have "pressure 5 = fadd (pressure 4) (float_lit (45 / 100))"
    by (simp add: pressure_def eval_nat_numeral)
  also have "\<dots> = 9 / 4"
    unfolding pressure_4 dp_value by (simp add: float_eval)
  finally show ?thesis .
qed

lemma pressure_6: "pressure 6 = 3039929748475085 / 1125899906842624"
proof -
  have "pressure 6 = fadd (pressure 5) (float_lit (45 / 100))"
    by (simp add: pressure_def eval_nat_numeral)
  also have "\<dots> = 3039929748475085 / 1125899906842624"
    unfolding pressure_5 dp_value by (simp add: float_eval)
  finally show ?thesis .
qed

lemma pressure_7: "pressure 7 = 1773292353277133 / 562949953421312"
proof -
  have "pressure 7 = fadd (pressure 6) (float_lit (45 / 100))"
    by (simp add: pressure_def eval_nat_numeral)
  also have "\<dots> = 1773292353277133 / 562949953421312"
    unfolding pressure_6 dp_value by (simp add: float_eval)
  finally show ?thesis .
qed

lemma pressure_8: "pressure 8 = 4053239664633447 / 1125899906842624"
proof -
  have "pressure 8 = fadd (pressure 7) (float_lit (45 / 100))"
    by (simp add: pressure_def eval_nat_numeral)
  also have "\<dots> = 4053239664633447 / 1125899906842624"
    unfolding pressure_7 dp_value by (simp add: float_eval)
  finally show ?thesis .
qed

lemma pressure_9: "pressure 9 = 1139973655678157 / 281474976710656"
proof -
  have "pressure 9 = fadd (pressure 8) (float_lit (45 / 100))"
    by (simp add: pressure_def eval_nat_numeral)
  also have "\<dots> = 1139973655678157 / 281474976710656"
    unfolding pressure_8 dp_value by (simp add: float_eval)
  finally show ?thesis .
qed

lemma pressure_10: "pressure 10 = 5066549580791809 / 1125899906842624"
proof -
  have "pressure 10 = fadd (pressure 9) (float_lit (45 / 100))"
    by (simp add: pressure_def eval_nat_numeral)
  also have "\<dots> = 5066549580791809 / 1125899906842624"
    unfolding pressure_9 dp_value by (simp add: float_eval)
  finally show ?thesis .
qed

lemma pressure_11: "pressure 11 = 2786602269435495 / 562949953421312"
proof -
  have "pressure 11 = fadd (pressure 10) (float_lit (45 / 100))"
    by (simp add: pressure_def eval_nat_numeral)
  also have "\<dots> = 2786602269435495 / 562949953421312"
    unfolding pressure_10 dp_value by (simp add: float_eval)
  finally show ?thesis .
qed

lemma pressure_12: "pressure 12 = 6079859496950171 / 1125899906842624"
proof -
  have "pressure 12 = fadd (pressure 11) (float_lit (45 / 100))"
    by (simp add: pressure_def eval_nat_numeral)
  also have "\<dots> = 6079859496950171 / 1125899906842624"
    unfolding pressure_11 dp_value by (simp add: float_eval)
  finally show ?thesis .
qed

lemma pressure_Suc_0: "pressure (Suc 0) = 8106479329266893 / 18014398509481984"
  using pressure_1 by simp

lemmas pressure_values = pressure_Suc_0 pressure_0 pressure_1 pressure_2 pressure_3 pressure_4 pressure_5 pressure_6 pressure_7 pressure_8 pressure_9 pressure_10 pressure_11 pressure_12

lemma lt_12_cases:
  "k < 12 \<Longrightarrow> k = 0 \<or> k = Suc 0 \<or> k = 2 \<or> k = 3 \<or> k = 4 \<or> k = 5 \<or> k = 6 \<or> k = 7 \<or> k = 8
     \<or> k = 9 \<or> k = 10 \<or> k = (11::nat)"
  by arith

lemma pressure_le_5:
  assumes "k < 12"
  shows "pressure k \<le> 5"
  using lt_12_cases [OF assms] by (elim disjE) (simp_all add: pressure_values)

lemma pressure_12_gt_5: "5 < pressure 12"
  by (simp add: pressure_12)

lemma rounded_0: "py_round (pressure 0) 3 = 0"
  unfolding pressure_0 by (simp add: float_eval)

lemma rounded_1: "py_round (pressure 1) 3 = 8106479329266893 / 18014398509481984"
  unfolding pressure_1 by (simp add: float_eval)

lemma rounded_2: "py_round (pressure 2) 3 = 8106479329266893 / 9007199254740992"
  unfolding pressure_2 by (simp add: float_eval)

lemma rounded_3: "py_round (pressure 3) 3 = 3039929748475085 / 2251799813685248"
  unfolding pressure_3 by (simp add: float_eval)

lemma rounded_4: "py_round (pressure 4) 3 = 8106479329266893 / 4503599627370496"
  unfolding pressure_4 by (simp add: float_eval)

lemma rounded_5: "py_round (pressure 5) 3 = 9 / 4"
  unfolding pressure_5 by (simp add: float_eval)

lemma rounded_6: "py_round (pressure 6) 3 = 3039929748475085 / 1125899906842624"
  unfolding pressure_6 by (simp add: float_eval)

lemma rounded_7: "py_round (pressure 7) 3 = 7093169413108531 / 2251799813685248"
  unfolding pressure_7 by (simp add: float_eval)

lemma rounded_8: "py_round (pressure 8) 3 = 8106479329266893 / 2251799813685248"
  unfolding pressure_8 by (simp add: float_eval)

lemma rounded_9: "py_round (pressure 9) 3 = 4559894622712627 / 1125899906842624"
  unfolding pressure_9 by (simp add: float_eval)

lemma rounded_10: "py_round (pressure 10) 3 = 9 / 2"
  unfolding pressure_10 by (simp add: float_eval)

lemma rounded_11: "py_round (pressure 11) 3 = 5573204538870989 / 1125899906842624"
  unfolding pressure_11 by (simp add: float_eval)

lemmas rounded_values = rounded_0 rounded_1 rounded_2 rounded_3 rounded_4 rounded_5 rounded_6 rounded_7 rounded_8 rounded_9 rounded_10 rounded_11

lemma decimal_0: "float_lit (0 / 100) = 0"
  by (simp add: float_eval)

lemma decimal_1: "float_lit (45 / 100) = 8106479329266893 / 18014398509481984"
  by (simp add: float_eval)

lemma decimal_2: "float_lit (90 / 100) = 8106479329266893 / 9007199254740992"
  by (simp add: float_eval)

lemma decimal_3: "float_lit (135 / 100) = 3039929748475085 / 2251799813685248"
  by (simp add: float_eval)

lemma decimal_4: "float_lit (180 / 100) = 8106479329266893 / 4503599627370496"
  by (simp add: float_eval)

lemma decimal_5: "float_lit (225 / 100) = 9 / 4"
  by (simp add: float_eval)

lemma decimal_6: "float_lit (270 / 100) = 3039929748475085 / 1125899906842624"
  by (simp add: float_eval)

lemma decimal_7: "float_lit (315 / 100) = 7093169413108531 / 2251799813685248"
  by (simp add: float_eval)

lemma decimal_8: "float_lit (360 / 100) = 8106479329266893 / 2251799813685248"
  by (simp add: float_eval)

lemma decimal_9: "float_lit (405 / 100) = 4559894622712627 / 1125899906842624"
  by (simp add: float_eval)

lemma decimal_10: "float_lit (450 / 100) = 9 / 2"
  by (simp add: float_eval)

lemma decimal_11: "float_lit (495 / 100) = 5573204538870989 / 1125899906842624"
  by (simp add: float_eval)

lemmas decimal_values = decimal_0 decimal_1 decimal_2 decimal_3 decimal_4 decimal_5 decimal_6 decimal_7 decimal_8 decimal_9 decimal_10 decimal_11

section \<open>The boundary locator\<close>

lemma tol_value: "float_lit (1 / 10) = 3602879701896397 / 36028797018963968"
  by (simp add: float_eval)

lemma isclose_nonneg: "0 \<le> tol \<Longrightarrow> isclose a b tol = Inr (close_to a b tol)"
  by (auto simp: isclose_def close_to_def Let_def rel_tol_value)

lemma nodeCoord_member: "nid \<in> set (getNodeTags m) \<Longrightarrow> \<exists>c. nodeCoord m nid = Inr c"
  by (cases "map_of (node_table m) nid")
     (auto simp: nodeCoord_def getNodeTags_def map_of_eq_None_iff)

lemma fix_at_scan_eq:
  assumes "0 \<le> tol" and "set nids \<subseteq> set (getNodeTags m)"
  shows "fix_at_scan m x0 y0 z0 tol nids fixed
         = Inr (fixed @ filter (node_matches m x0 y0 z0 tol) nids)"
  using assms(2)
proof (induction nids arbitrary: fixed)
  case Nil
  then show ?case by simp
next
  case (Cons nid nids)
  from Cons.prems obtain x y z where c: "nodeCoord m nid = Inr (x, y, z)"
    using nodeCoord_member [of nid m] by (cases "nodeCoord m nid") auto
  from Cons.prems have sub: "set nids \<subseteq> set (getNodeTags m)" by simp
  show ?case
    by (simp add: c isclose_nonneg [OF assms(1)] Cons.IH [OF sub] node_matches_def)
qed

lemma foldl_fix_cmd:
  "foldl (\<lambda>m' n. fix_cmd m' n fl) m ns
   = m\<lparr>sp_constraints := sp_constraints m @ map (\<lambda>n. (n, fl)) ns\<rparr>"
  by (induction ns arbitrary: m) (simp_all add: fix_cmd_def)

lemma fix_at_eq:
  assumes "0 \<le> tol"
  shows "fix_at m x0 y0 z0 tol
         = Inr (m\<lparr>sp_constraints := sp_constraints m @
                  map (\<lambda>n. (n, [1, 1, 1, 1, 1, 1]))
                    (filter (node_matches m x0 y0 z0 tol) (getNodeTags m))\<rparr>)"
  by (simp add: fix_at_def fix_at_scan_eq [OF assms] foldl_fix_cmd)

lemma node_matches_cong:
  "node_table m' = node_table m \<Longrightarrow> node_matches m' = node_matches m"
  by (intro ext) (simp add: node_matches_def nodeCoord_def)

lemma element_cmd_Inr:
  assumes "element_cmd ops m ty None ns sec vert = Inr m'"
  shows "m' = m\<lparr>ele_table := ele_table m @
                 [\<lparr>ele_tag = frame_tag ops (ele_table m), ele_type = ty, ele_nodes = ns,
                   ele_section = sec, ele_vertical = vert\<rparr>]\<rparr>"
  using assms by (simp add: element_cmd_def Let_def split: option.splits)

lemma edge_frames_Inr:
  assumes "edge_frames ops m nss = Inr m'"
  shows "\<exists>fr. m' = m\<lparr>ele_table := ele_table m @ fr\<rparr>
        \<and> map ele_nodes fr = nss
        \<and> (\<forall>e \<in> set fr. ele_type e = ''PrismFrame'' \<and> ele_section e = 5
                         \<and> ele_vertical e = [0, 0, 1])"
  using assms
proof (induction nss arbitrary: m)
  case Nil
  then show ?case by (intro exI [of _ "[]"]) simp
next
  case (Cons ns nss)
  from Cons.prems obtain m1 where
    m1: "element_cmd ops m ''PrismFrame'' None ns 5 [0, 0, 1] = Inr m1"
    and rest: "edge_frames ops m1 nss = Inr m'"
    by (cases "element_cmd ops m ''PrismFrame'' None ns 5 [0, 0, 1]") simp_all
  let ?e = "\<lparr>ele_tag = frame_tag ops (ele_table m), ele_type = ''PrismFrame'', ele_nodes = ns,
             ele_section = 5, ele_vertical = [0, 0, 1]\<rparr>"
  have m1': "m1 = m\<lparr>ele_table := ele_table m @ [?e]\<rparr>"
    by (rule element_cmd_Inr [OF m1])
  from Cons.IH [OF rest] obtain fr where
    fr: "m' = m1\<lparr>ele_table := ele_table m1 @ fr\<rparr>"
      "map ele_nodes fr = nss"
      "\<forall>e \<in> set fr. ele_type e = ''PrismFrame'' \<and> ele_section e = 5
                     \<and> ele_vertical e = [0, 0, 1]"
    by blast
  show ?case
    using fr by (intro exI [of _ "?e # fr"]) (simp add: m1')
qed

lemma edge_frames_accepted:
  assumes "\<And>m e. element_error ops m e = None"
  shows "\<exists>m'. edge_frames ops m nss = Inr m'"
  by (induction nss arbitrary: m) (simp_all add: element_cmd_def Let_def assms)

lemma edge_frames_refused:
  assumes "element_error ops m
             \<lparr>ele_tag = frame_tag ops (ele_table m), ele_type = ''PrismFrame'', ele_nodes = ns,
              ele_section = 5, ele_vertical = [0, 0, 1]\<rparr> = Some err"
  shows "edge_frames ops m (ns # nss) = Inl err"
  by (simp add: element_cmd_def Let_def assms)

section \<open>Model generation\<close>

lemma define_materials_fields:
  "node_table (define_materials m) = node_table m"
  "ele_table (define_materials m) = ele_table m"
  "sp_constraints (define_materials m) = sp_constraints m"
  "loads (define_materials m) = loads m"
  "time_series (define_materials m) = time_series m"
  "patterns (define_materials m) = patterns m"
  "analysis_setup (define_materials m) = analysis_setup m"
  by (simp_all add: define_materials_def Let_def nDMaterial_def uniaxialMaterial_def
      section_cmd_def patch_def eval_ASDConcrete3D_def)


lemma fixZ_eq:
  "fixZ ops m z fl
   = m\<lparr>sp_constraints := sp_constraints m @ map (\<lambda>n. (n, fl)) (fixZ_nodes ops (node_table m) z)\<rparr>"
  by (simp add: fixZ_def foldl_fix_cmd)

lemma tol_nonneg: "0 \<le> float_lit (1 / 10)"
  by (simp add: tol_value)

lemma apply_fixities_eq:
  "apply_fixities m =
     Inr (m\<lparr>sp_constraints := sp_constraints m @
            map (\<lambda>n. (n, [1, 1, 1, 1, 1, 1]))
              (filter (node_matches m (fmul (- float_lit (33282 / 1000)) 12) 0
                         (fmul (float_lit (49923 / 1000)) 12) (float_lit (1 / 10)))
                 (getNodeTags m) @
               filter (node_matches m (fmul (float_lit (33282 / 1000)) 12) 0
                         (fmul (float_lit (22077 / 1000)) 12) (float_lit (1 / 10)))
                 (getNodeTags m) @
               filter (node_matches m 0 0 (fmul (float_lit (360555 / 10000)) 12) 1)
                 (getNodeTags m))\<rparr>)"
proof -
  define m5 where "m5 = m\<lparr>sp_constraints := sp_constraints m @
      map (\<lambda>n. (n, [1, 1, 1, 1, 1, 1]))
        (filter (node_matches m (fmul (- float_lit (33282 / 1000)) 12) 0
                    (fmul (float_lit (49923 / 1000)) 12) (float_lit (1 / 10))) (getNodeTags m))\<rparr>"
  define m6 where "m6 = m5\<lparr>sp_constraints := sp_constraints m5 @
      map (\<lambda>n. (n, [1, 1, 1, 1, 1, 1]))
        (filter (node_matches m5 (fmul (float_lit (33282 / 1000)) 12) 0
                    (fmul (float_lit (22077 / 1000)) 12) (float_lit (1 / 10))) (getNodeTags m5))\<rparr>"
  define m7 where "m7 = m6\<lparr>sp_constraints := sp_constraints m6 @
      map (\<lambda>n. (n, [1, 1, 1, 1, 1, 1]))
        (filter (node_matches m6 0 0 (fmul (float_lit (360555 / 10000)) 12) 1) (getNodeTags m6))\<rparr>"
  have f5: "fix_at m (fmul (- float_lit (33282 / 1000)) 12) 0
              (fmul (float_lit (49923 / 1000)) 12) (float_lit (1 / 10)) = Inr m5"
    unfolding m5_def by (rule fix_at_eq [OF tol_nonneg])
  have f6: "fix_at m5 (fmul (float_lit (33282 / 1000)) 12) 0
              (fmul (float_lit (22077 / 1000)) 12) (float_lit (1 / 10)) = Inr m6"
    unfolding m6_def by (rule fix_at_eq [OF tol_nonneg])
  have f7: "fix_at m6 0 0 (fmul (float_lit (360555 / 10000)) 12) 1 = Inr m7"
    unfolding m7_def by (rule fix_at_eq) simp
  have a: "apply_fixities m = Inr m7"
    by (simp only: apply_fixities_def f5 f6 f7 sum.case)
  have n5: "node_table m5 = node_table m" by (simp add: m5_def)
  have n6: "node_table m6 = node_table m" by (simp add: m6_def n5)
  have nm: "node_matches m5 = node_matches m" "node_matches m6 = node_matches m"
    by (rule node_matches_cong, simp add: n5 n6)+
  have gt: "getNodeTags m5 = getNodeTags m" "getNodeTags m6 = getNodeTags m"
    by (simp_all add: getNodeTags_def n5 n6)
  have "m7 = m\<lparr>sp_constraints := sp_constraints m @
            map (\<lambda>n. (n, [1, 1, 1, 1, 1, 1]))
              (filter (node_matches m (fmul (- float_lit (33282 / 1000)) 12) 0
                         (fmul (float_lit (49923 / 1000)) 12) (float_lit (1 / 10)))
                 (getNodeTags m) @
               filter (node_matches m (fmul (float_lit (33282 / 1000)) 12) 0
                         (fmul (float_lit (22077 / 1000)) 12) (float_lit (1 / 10)))
                 (getNodeTags m) @
               filter (node_matches m 0 0 (fmul (float_lit (360555 / 10000)) 12) 1)
                 (getNodeTags m))\<rparr>"
    unfolding m7_def nm gt unfolding m6_def nm gt unfolding m5_def by simp
  with a show ?thesis by simp
qed

lemma build_geometry_Inr:
  assumes "build_geometry ops = Inr m"
  obtains s fr where
    "surface_gen ops (10, 10) ''ShellMITC4'' [1] points = Inr s"
    "node_table m = surf_nodes s"
    "ele_table m =
       map (\<lambda>(t, ns). \<lparr>ele_tag = t, ele_type = ''ShellMITC4'', ele_nodes = ns, ele_section = 1,
                        ele_vertical = []\<rparr>) (surf_cells s) @ fr"
    "map ele_nodes fr = surf_walk_edge s"
    "\<forall>e \<in> set fr. ele_type e = ''PrismFrame'' \<and> ele_section e = 5 \<and> ele_vertical e = [0, 0, 1]"
    "materials m = materials (define_materials (Model 3 6))"
    "sp_constraints m =
       map (\<lambda>n. (n, [1, 1, 1, 1, 1, 1]))
         (fixZ_nodes ops (surf_nodes s) 0 @
          fixZ_nodes ops (surf_nodes s) (fmul (float_lit (72111 / 1000)) 12))"
    "loads m = []" "time_series m = []" "patterns m = []" "analysis_setup m = []"
proof -
  define m0 where "m0 = define_materials (Model 3 6)"
  from assms obtain s where s: "surface_gen ops (10, 10) ''ShellMITC4'' [1] points = Inr s"
    by (cases "surface_gen ops (10, 10) ''ShellMITC4'' [1] points")
       (simp_all add: build_geometry_def Let_def surface_def)
  define m1 where "m1 = m0\<lparr>node_table := node_table m0 @ surf_nodes s,
                  ele_table := ele_table m0 @
                    map (\<lambda>(t, ns). \<lparr>ele_tag = t, ele_type = ''ShellMITC4'', ele_nodes = ns,
                                     ele_section = hd [1], ele_vertical = []\<rparr>) (surf_cells s)\<rparr>"
  have b: "build_geometry ops =
      (case edge_frames ops m1 (surf_walk_edge s) of
         Inl e \<Rightarrow> Inl e
       | Inr m \<Rightarrow> Inr (fixZ ops (fixZ ops m 0 [1, 1, 1, 1, 1, 1])
                         (fmul (float_lit (72111 / 1000)) 12) [1, 1, 1, 1, 1, 1]))"
    by (simp only: build_geometry_def Let_def surface_def s sum.case prod.case
        m0_def [symmetric] m1_def [symmetric])
  from assms obtain m2 where m2: "edge_frames ops m1 (surf_walk_edge s) = Inr m2"
    unfolding b by (cases "edge_frames ops m1 (surf_walk_edge s)") simp_all
  define m3 where "m3 = fixZ ops m2 0 [1, 1, 1, 1, 1, 1]"
  define m4 where "m4 = fixZ ops m3 (fmul (float_lit (72111 / 1000)) 12) [1, 1, 1, 1, 1, 1]"
  from assms have m: "m = m4"
    unfolding b m2 m4_def m3_def by simp
  from edge_frames_Inr [OF m2] obtain fr where fr:
    "m2 = m1\<lparr>ele_table := ele_table m1 @ fr\<rparr>"
    "map ele_nodes fr = surf_walk_edge s"
    "\<forall>e \<in> set fr. ele_type e = ''PrismFrame'' \<and> ele_section e = 5 \<and> ele_vertical e = [0, 0, 1]"
    by blast
  have empty: "node_table (Model 3 6) = []" "ele_table (Model 3 6) = []"
    "sp_constraints (Model 3 6) = []" "loads (Model 3 6) = []" "time_series (Model 3 6) = []"
    "patterns (Model 3 6) = []" "analysis_setup (Model 3 6) = []"
    by (simp_all add: Model_def)
  have n1: "node_table m1 = surf_nodes s"
    by (simp add: m1_def m0_def define_materials_fields empty)
  have n2: "node_table m2 = surf_nodes s" by (simp add: fr(1) n1)
  have n3: "node_table m3 = surf_nodes s" by (simp add: m3_def fixZ_eq n2)
  have n4: "node_table m4 = surf_nodes s" by (simp add: m4_def fixZ_eq n3)
  have e2: "ele_table m2 =
       map (\<lambda>(t, ns). \<lparr>ele_tag = t, ele_type = ''ShellMITC4'', ele_nodes = ns, ele_section = 1,
                        ele_vertical = []\<rparr>) (surf_cells s) @ fr"
    by (simp add: fr(1) m1_def m0_def define_materials_fields empty)
  have e4: "ele_table m4 = ele_table m2"
    by (simp add: m4_def m3_def fixZ_eq)
  have s2: "sp_constraints m2 = []"
    by (simp add: fr(1) m1_def m0_def define_materials_fields empty)
  have s4: "sp_constraints m4 = map (\<lambda>n. (n, [1, 1, 1, 1, 1, 1]))
         (fixZ_nodes ops (surf_nodes s) 0 @
          fixZ_nodes ops (surf_nodes s) (fmul (float_lit (72111 / 1000)) 12))"
    by (simp add: m4_def m3_def fixZ_eq s2 n2 n3)
  have rest: "materials m4 = materials (define_materials (Model 3 6))"
    "loads m4 = []" "time_series m4 = []" "patterns m4 = []" "analysis_setup m4 = []"
    by (simp_all add: m4_def m3_def fixZ_eq fr(1) m1_def m0_def
        define_materials_fields empty)
  show thesis
    using that [OF s _ _ fr(2) fr(3)] n4 e4 e2 s4 rest unfolding m by simp
qed

lemma build_geometry_accepted:
  assumes "surface_gen ops (10, 10) ''ShellMITC4'' [1] points = Inr s"
    and "\<And>m e. element_error ops m e = None"
  shows "\<exists>m. build_geometry ops = Inr m"
proof -
  define m1 where "m1 = (define_materials (Model 3 6))
      \<lparr>node_table := node_table (define_materials (Model 3 6)) @ surf_nodes s,
       ele_table := ele_table (define_materials (Model 3 6)) @
         map (\<lambda>(t, ns). \<lparr>ele_tag = t, ele_type = ''ShellMITC4'', ele_nodes = ns,
                          ele_section = hd [1], ele_vertical = []\<rparr>) (surf_cells s)\<rparr>"
  have b: "build_geometry ops =
      (case edge_frames ops m1 (surf_walk_edge s) of
         Inl e \<Rightarrow> Inl e
       | Inr m \<Rightarrow> Inr (fixZ ops (fixZ ops m 0 [1, 1, 1, 1, 1, 1])
                         (fmul (float_lit (72111 / 1000)) 12) [1, 1, 1, 1, 1, 1]))"
    by (simp only: build_geometry_def Let_def surface_def assms(1) sum.case prod.case
        m1_def [symmetric])
  from edge_frames_accepted [of ops m1 "surf_walk_edge s"] assms(2)
  obtain m2 where "edge_frames ops m1 (surf_walk_edge s) = Inr m2" by blast
  then show ?thesis unfolding b by simp
qed

lemma create_model_Inl:
  "create_model ops w = Inl e \<longleftrightarrow> build_geometry ops = Inl e"
  by (cases "build_geometry ops") (simp_all add: create_model_def apply_fixities_eq)

lemma create_model_built:
  assumes "build_geometry ops = Inr m0"
  shows "create_model ops w =
     Inr (m0\<lparr>sp_constraints := sp_constraints m0 @
            map (\<lambda>n. (n, [1, 1, 1, 1, 1, 1]))
              (filter (node_matches m0 (fmul (- float_lit (33282 / 1000)) 12) 0
                         (fmul (float_lit (49923 / 1000)) 12) (float_lit (1 / 10)))
                 (getNodeTags m0) @
               filter (node_matches m0 (fmul (float_lit (33282 / 1000)) 12) 0
                         (fmul (float_lit (22077 / 1000)) 12) (float_lit (1 / 10)))
                 (getNodeTags m0) @
               filter (node_matches m0 0 0 (fmul (float_lit (360555 / 10000)) 12) 1)
                 (getNodeTags m0))\<rparr>)"
  unfolding create_model_def assms sum.case by (rule apply_fixities_eq)

lemma create_model_Inr:
  assumes "create_model ops w = Inr m"
  obtains s fr where
    "surface_gen ops (10, 10) ''ShellMITC4'' [1] points = Inr s"
    "node_table m = surf_nodes s"
    "ele_table m =
       map (\<lambda>(t, ns). \<lparr>ele_tag = t, ele_type = ''ShellMITC4'', ele_nodes = ns, ele_section = 1,
                        ele_vertical = []\<rparr>) (surf_cells s) @ fr"
    "map ele_nodes fr = surf_walk_edge s"
    "\<forall>e \<in> set fr. ele_type e = ''PrismFrame'' \<and> ele_section e = 5 \<and> ele_vertical e = [0, 0, 1]"
    "materials m = materials (define_materials (Model 3 6))"
    "sp_constraints m =
       map (\<lambda>n. (n, [1, 1, 1, 1, 1, 1]))
         (fixZ_nodes ops (surf_nodes s) 0 @
          fixZ_nodes ops (surf_nodes s) (fmul (float_lit (72111 / 1000)) 12) @
          filter (node_matches m (fmul (- float_lit (33282 / 1000)) 12) 0
                    (fmul (float_lit (49923 / 1000)) 12) (float_lit (1 / 10))) (getNodeTags m) @
          filter (node_matches m (fmul (float_lit (33282 / 1000)) 12) 0
                    (fmul (float_lit (22077 / 1000)) 12) (float_lit (1 / 10))) (getNodeTags m) @
          filter (node_matches m 0 0 (fmul (float_lit (360555 / 10000)) 12) 1) (getNodeTags m))"
    "loads m = []" "time_series m = []" "patterns m = []" "analysis_setup m = []"
proof -
  from assms obtain m0 where b: "build_geometry ops = Inr m0"
    by (cases "build_geometry ops") (simp_all add: create_model_def)
  define cs where "cs = map (\<lambda>n. (n, [1, 1, 1, 1, 1, 1 :: int]))
              (filter (node_matches m0 (fmul (- float_lit (33282 / 1000)) 12) 0
                         (fmul (float_lit (49923 / 1000)) 12) (float_lit (1 / 10)))
                 (getNodeTags m0) @
               filter (node_matches m0 (fmul (float_lit (33282 / 1000)) 12) 0
                         (fmul (float_lit (22077 / 1000)) 12) (float_lit (1 / 10)))
                 (getNodeTags m0) @
               filter (node_matches m0 0 0 (fmul (float_lit (360555 / 10000)) 12) 1)
                 (getNodeTags m0))"
  from create_model_built [OF b, of w] assms
  have m: "m = m0\<lparr>sp_constraints := sp_constraints m0 @ cs\<rparr>"
    unfolding cs_def by simp
  have nt: "node_table m = node_table m0" by (simp add: m)
  have nm: "node_matches m0 = node_matches m"
    by (rule node_matches_cong) (simp add: nt)
  have gt: "getNodeTags m0 = getNodeTags m"
    by (simp add: getNodeTags_def nt)
  from b obtain s fr where g:
    "surface_gen ops (10, 10) ''ShellMITC4'' [1] points = Inr s"
    "node_table m0 = surf_nodes s"
    "ele_table m0 =
       map (\<lambda>(t, ns). \<lparr>ele_tag = t, ele_type = ''ShellMITC4'', ele_nodes = ns, ele_section = 1,
                        ele_vertical = []\<rparr>) (surf_cells s) @ fr"
    "map ele_nodes fr = surf_walk_edge s"
    "\<forall>e \<in> set fr. ele_type e = ''PrismFrame'' \<and> ele_section e = 5 \<and> ele_vertical e = [0, 0, 1]"
    "materials m0 = materials (define_materials (Model 3 6))"
    "sp_constraints m0 =
       map (\<lambda>n. (n, [1, 1, 1, 1, 1, 1]))
         (fixZ_nodes ops (surf_nodes s) 0 @
          fixZ_nodes ops (surf_nodes s) (fmul (float_lit (72111 / 1000)) 12))"
    "loads m0 = []" "time_series m0 = []" "patterns m0 = []" "analysis_setup m0 = []"
    by (rule build_geometry_Inr)
  have sp: "sp_constraints m = sp_constraints m0 @ cs" by (simp add: m)
  have s7: "sp_constraints m =
       map (\<lambda>n. (n, [1, 1, 1, 1, 1, 1]))
         (fixZ_nodes ops (surf_nodes s) 0 @
          fixZ_nodes ops (surf_nodes s) (fmul (float_lit (72111 / 1000)) 12) @
          filter (node_matches m (fmul (- float_lit (33282 / 1000)) 12) 0
                    (fmul (float_lit (49923 / 1000)) 12) (float_lit (1 / 10))) (getNodeTags m) @
          filter (node_matches m (fmul (float_lit (33282 / 1000)) 12) 0
                    (fmul (float_lit (22077 / 1000)) 12) (float_lit (1 / 10))) (getNodeTags m) @
          filter (node_matches m 0 0 (fmul (float_lit (360555 / 10000)) 12) 1) (getNodeTags m))"
    unfolding sp g(7) cs_def nm gt by simp
  have others: "node_table m = surf_nodes s"
    "ele_table m =
       map (\<lambda>(t, ns). \<lparr>ele_tag = t, ele_type = ''ShellMITC4'', ele_nodes = ns, ele_section = 1,
                        ele_vertical = []\<rparr>) (surf_cells s) @ fr"
    "materials m = materials (define_materials (Model 3 6))"
    "loads m = []" "time_series m = []" "patterns m = []" "analysis_setup m = []"
    using g by (simp_all add: m)
  show thesis
    by (rule that [OF g(1) others(1) others(2) g(4) g(5) others(3) s7 others(4-7)])
qed

section \<open>Loads and files\<close>

subsection \<open>Loads\<close>

lemma foldl_load_cmd:
  "foldl (\<lambda>m' nid. load_cmd m' nid v pat) m nids
   = m\<lparr>loads := loads m @
         map (\<lambda>nid. \<lparr>load_node = nid, load_values = v, load_pattern = pat\<rparr>) nids\<rparr>"
  by (induction nids arbitrary: m) (simp_all add: load_cmd_def)

lemma find_tag_Some:
  assumes "t \<in> ele_tag ` set et"
  shows "\<exists>e. find (\<lambda>e. ele_tag e = t) et = Some e"
  using assms by (cases "find (\<lambda>e. ele_tag e = t) et") (auto simp: find_None_iff)

lemma find_tag_distinct:
  "distinct (map ele_tag et) \<Longrightarrow> e \<in> set et \<Longrightarrow> find (\<lambda>e'. ele_tag e' = ele_tag e) et = Some e"
  by (induction et) auto

lemma load_elements_eq:
  assumes "set ts \<subseteq> ele_tag ` set (ele_table m)"
  shows "load_elements m p ts
         = Inr (m\<lparr>loads := loads m @
                  concat (map (\<lambda>t. map (\<lambda>nid. \<lparr>load_node = nid,
                                                  load_values = [0, - p, 0, 0, 0, 0],
                                                  load_pattern = 1\<rparr>)
                                     (case find (\<lambda>e. ele_tag e = t) (ele_table m) of
                                        None \<Rightarrow> [] | Some e \<Rightarrow> ele_nodes e)) ts)\<rparr>)"
  using assms
proof (induction ts arbitrary: m)
  case Nil
  then show ?case by simp
next
  case (Cons t ts)
  from Cons.prems obtain e where e: "find (\<lambda>e. ele_tag e = t) (ele_table m) = Some e"
    using find_tag_Some [of t "ele_table m"] by auto
  let ?m1 = "m\<lparr>loads := loads m @
       map (\<lambda>nid. \<lparr>load_node = nid, load_values = [0, - p, 0, 0, 0, 0], load_pattern = 1\<rparr>)
         (ele_nodes e)\<rparr>"
  have sub: "set ts \<subseteq> ele_tag ` set (ele_table ?m1)" using Cons.prems by simp
  show ?case
    by (simp add: eleNodes_def e foldl_load_cmd Cons.IH [OF sub])
qed

lemma pressure_loads_tags:
  assumes "distinct (map ele_tag et)"
  shows "set es \<subseteq> set et \<Longrightarrow>
         concat (map (\<lambda>t. f (case find (\<lambda>e. ele_tag e = t) et of
                               None \<Rightarrow> [] | Some e \<Rightarrow> ele_nodes e)) (map ele_tag es))
         = concat (map (\<lambda>e. f (ele_nodes e)) es)"
  by (induction es) (simp_all add: find_tag_distinct [OF assms])

lemma static_analysis_cases:
  obtains m_in where
    "static_analysis ops n m p =
       (case analyze_gen ops n m_in 1 of
          Inl e \<Rightarrow> Inl e
        | Inr (res, sol) \<Rightarrow> Inr (res, m_in, sol))"
    "node_table m_in = node_table m" "ele_table m_in = ele_table m"
    "sp_constraints m_in = sp_constraints m"
    "distinct (getEleTags m) \<Longrightarrow> loads m_in = loads m @ pressure_loads m p"
    "\<forall>l \<in> set (drop (length (loads m)) (loads m_in)).
        load_values l = [0, - p, 0, 0, 0, 0] \<and> load_pattern l = 1"
proof -
  let ?m1 = "m\<lparr>time_series := time_series m @ [(''Linear'', 1)],
               patterns := patterns m @ [(''Plain'', 1, 1)]\<rparr>"
  let ?ls = "concat (map (\<lambda>t. map (\<lambda>nid. \<lparr>load_node = nid,
                                                  load_values = [0, - p, 0, 0, 0, 0],
                                                  load_pattern = 1\<rparr>)
                                     (case find (\<lambda>e. ele_tag e = t) (ele_table ?m1) of
                                        None \<Rightarrow> [] | Some e \<Rightarrow> ele_nodes e)) (getEleTags ?m1))"
  let ?m2 = "?m1\<lparr>loads := loads ?m1 @ ?ls\<rparr>"
  define m_in where "m_in = ?m2\<lparr>analysis_setup := analysis_setup ?m2 @
                      [Integrator_LoadControl 1 1 1 10,
                       Test_NormDispIncr (float_lit (1 / 100)) 30 2,
                       Algorithm_Newton, Numberer_RCM, Constraints_Plain,
                       System_SparseGeneral ''-piv'', Analysis_Static]\<rparr>"
  have ap: "apply_pressure m p = Inr ?m2"
    using load_elements_eq [of "getEleTags ?m1" ?m1 p]
    by (simp add: apply_pressure_def Let_def getEleTags_def)
  have 1: "static_analysis ops n m p =
       (case analyze_gen ops n m_in 1 of
          Inl e \<Rightarrow> Inl e
        | Inr (res, sol) \<Rightarrow> Inr (res, m_in, sol))"
    unfolding static_analysis_def ap sum.case Let_def m_in_def [symmetric] by (rule refl)
  have 2: "distinct (getEleTags m) \<Longrightarrow> loads m_in = loads m @ pressure_loads m p"
    using pressure_loads_tags [of "ele_table m" "ele_table m"]
    by (simp add: m_in_def getEleTags_def pressure_loads_def)
  have 3: "\<forall>l \<in> set (drop (length (loads m)) (loads m_in)).
        load_values l = [0, - p, 0, 0, 0, 0] \<and> load_pattern l = 1"
    by (auto simp: m_in_def)
  show thesis
    by (rule that [of m_in, OF 1 _ _ _ 2 3]) (simp_all add: m_in_def)
qed

lemma static_analysis_solver:
  "static_analysis ops n m p =
     (case solver_input m p of
        Inl e \<Rightarrow> Inl e
      | Inr m_in \<Rightarrow>
          (case analyze_gen ops n m_in 1 of
             Inl e \<Rightarrow> Inl e
           | Inr (res, sol) \<Rightarrow> Inr (res, m_in, sol)))"
  by (cases "apply_pressure m p") (simp_all add: static_analysis_def solver_input_def Let_def)

lemma solver_input_Inr: "\<exists>m_in. solver_input m p = Inr m_in \<and> node_table m_in = node_table m"
proof -
  let ?m1 = "m\<lparr>time_series := time_series m @ [(''Linear'', 1)],
               patterns := patterns m @ [(''Plain'', 1, 1)]\<rparr>"
  from load_elements_eq [of "getEleTags ?m1" ?m1 p]
  obtain m2 where ap: "apply_pressure m p = Inr m2" and nt: "node_table m2 = node_table m"
    by (simp add: apply_pressure_def Let_def getEleTags_def)
  show ?thesis
    unfolding solver_input_def ap by (simp add: nt)
qed

lemma count_distinct:
  "distinct xs \<Longrightarrow> length (filter (\<lambda>x. x = a) xs) = (if a \<in> set xs then 1 else 0)"
  by (induction xs) auto

lemma pressure_loads_sum_one:
  "distinct ns \<Longrightarrow>
   (\<Sum>l\<leftarrow>filter (\<lambda>l. load_node l = nid)
          (map (\<lambda>n. \<lparr>load_node = n, load_values = [0, - p, 0, 0, 0, 0], load_pattern = 1\<rparr>) ns).
       load_values l ! Suc 0) = (if nid \<in> set ns then - p else 0)"
  by (induction ns) auto

lemma pressure_loads_sum_all:
  "\<forall>e \<in> set es. distinct (ele_nodes e) \<Longrightarrow>
   (\<Sum>l\<leftarrow>filter (\<lambda>l. load_node l = nid)
         (concat (map (\<lambda>e. map (\<lambda>n. \<lparr>load_node = n, load_values = [0, - p, 0, 0, 0, 0],
                                       load_pattern = 1\<rparr>) (ele_nodes e)) es)).
       load_values l ! Suc 0)
   = - (of_nat (length (filter (\<lambda>e. nid \<in> set (ele_nodes e)) es)) * p)"
  by (induction es) (simp_all add: pressure_loads_sum_one algebra_simps)

lemma pressure_loads_sum:
  assumes "\<forall>e \<in> set (ele_table m). distinct (ele_nodes e)"
  shows "(\<Sum>l\<leftarrow>filter (\<lambda>l. load_node l = nid) (pressure_loads m p). load_values l ! 1)
         = - (of_nat (adjacency m nid) * p)"
  using pressure_loads_sum_all [OF assms, of nid p]
  by (simp add: pressure_loads_def adjacency_def)

subsection \<open>Files\<close>

lemma keys_open_w:
  "map fst (open_w f fs) = (if f \<in> set (map fst fs) then map fst fs else map fst fs @ [f])"
  by (induction fs) (force simp: image_iff)+

lemma keys_writerow: "map fst (writerow f r fs) = map fst fs"
  by (induction fs) auto

lemma map_of_open_w: "map_of (open_w f fs) g = (if g = f then Some [] else map_of fs g)"
  by (induction fs) auto

lemma map_of_writerow:
  "map_of (writerow f r fs) g
   = (if g = f then map_option (\<lambda>rows. rows @ [r]) (map_of fs f) else map_of fs g)"
  by (induction fs) auto

lemma write_disp_rows_keep:
  "case write_disp_rows sol f nids fs of
     Inl (e, fs') \<Rightarrow> map fst fs' = map fst fs \<and> (\<forall>g. g \<noteq> f \<longrightarrow> map_of fs' g = map_of fs g)
   | Inr fs' \<Rightarrow> map fst fs' = map fst fs \<and> (\<forall>g. g \<noteq> f \<longrightarrow> map_of fs' g = map_of fs g)"
proof (induction nids arbitrary: fs)
  case Nil
  show ?case by simp
next
  case (Cons nid nids)
  show ?case
  proof (cases "nodeDisp sol nid 1")
    case Inl
    then show ?thesis by simp
  next
    case ux: (Inr ux)
    show ?thesis
    proof (cases "nodeDisp sol nid 2")
      case Inl
      then show ?thesis by (simp add: ux)
    next
      case uy: (Inr uy)
      show ?thesis
      proof (cases "nodeDisp sol nid 3")
        case Inl
        then show ?thesis by (simp add: ux uy)
      next
        case uz: (Inr uz)
        show ?thesis
          using Cons.IH [of "writerow f [CInt nid, CFloat ux, CFloat uy, CFloat uz] fs"]
          by (simp add: ux uy uz keys_writerow map_of_writerow split: sum.splits prod.splits)
      qed
    qed
  qed
qed

lemma write_disp_rows_ok:
  "list_all (answered sol) nids \<Longrightarrow> \<exists>fs'. write_disp_rows sol f nids fs = Inr fs'"
proof (induction nids arbitrary: fs)
  case Nil
  show ?case by simp
next
  case (Cons nid nids)
  from Cons.prems obtain ux uy uz where
    "nodeDisp sol nid 1 = Inr ux" "nodeDisp sol nid 2 = Inr uy" "nodeDisp sol nid 3 = Inr uz"
    by (cases "nodeDisp sol nid 1"; cases "nodeDisp sol nid 2"; cases "nodeDisp sol nid 3")
       (simp_all add: answered_def)
  with Cons show ?case by simp
qed

lemma write_disp_rows_content:
  "write_disp_rows sol f nids fs = Inr fs' \<Longrightarrow> map_of fs f = Some rows \<Longrightarrow>
   map_of fs' f = Some (rows @ map (\<lambda>nid. [CInt nid, CFloat (projr (nodeDisp sol nid 1)),
                                            CFloat (projr (nodeDisp sol nid 2)),
                                            CFloat (projr (nodeDisp sol nid 3))]) nids)"
proof (induction nids arbitrary: fs rows)
  case Nil
  then show ?case by simp
next
  case (Cons nid nids)
  from Cons.prems(1) obtain ux uy uz where u:
    "nodeDisp sol nid 1 = Inr ux" "nodeDisp sol nid 2 = Inr uy" "nodeDisp sol nid 3 = Inr uz"
    by (cases "nodeDisp sol nid 1"; cases "nodeDisp sol nid 2"; cases "nodeDisp sol nid 3")
       simp_all
  let ?fs1 = "writerow f [CInt nid, CFloat ux, CFloat uy, CFloat uz] fs"
  have 1: "write_disp_rows sol f nids ?fs1 = Inr fs'" using Cons.prems(1) by (simp add: u)
  have 2: "map_of ?fs1 f = Some (rows @ [[CInt nid, CFloat ux, CFloat uy, CFloat uz]])"
    using Cons.prems(2) by (simp add: map_of_writerow)
  show ?case using Cons.IH [OF 1 2] by (simp add: u)
qed

lemma write_coord_rows_single:
  assumes "set nids \<subseteq> set (getNodeTags m)"
  shows "\<exists>rows'. write_coord_rows m f nids [(f, rows)] = Inr [(f, rows @ rows')]"
  using assms
proof (induction nids arbitrary: rows)
  case Nil
  show ?case by simp
next
  case (Cons nid nids)
  from Cons.prems obtain x y z where c: "nodeCoord m nid = Inr (x, y, z)"
    using nodeCoord_member [of nid m] by (cases "nodeCoord m nid") auto
  from Cons.prems have "set nids \<subseteq> set (getNodeTags m)" by simp
  from Cons.IH [OF this, of "rows @ [[CInt nid, CFloat x, CFloat y, CFloat z]]"]
  show ?case by (auto simp: c)
qed

section \<open>File names and single iterations\<close>

subsection \<open>File names\<close>

lemma digits10_hd: "\<exists>c cs. digits10 n = c # cs \<and> c \<in> set ''0123456789''"
proof (induction n rule: digits10.induct)
  case (1 n)
  show ?case
  proof (cases "n < 10")
    case True
    then have "nat n < length ''0123456789''" by simp
    then have "''0123456789'' ! nat n \<in> set ''0123456789''" by (rule nth_mem)
    with True show ?thesis
      by (subst digits10.simps) (simp add: digit_char_def)
  next
    case False
    with 1 obtain c cs where "digits10 (n div 10) = c # cs" "c \<in> set ''0123456789''"
      by blast
    with False show ?thesis
      by (subst digits10.simps) simp
  qed
qed

lemma str_int_hd: "\<exists>c cs. str_int t = c # cs \<and> c \<in> set ''-0123456789''"
  using digits10_hd [of t] by (auto simp: str_int_def)

lemma snapshot_neq_coord: "snapshot_name i \<noteq> ''node_coordinates.csv''"
  by (simp add: snapshot_name_def)

lemma history_neq_coord: "history_name t \<noteq> ''node_coordinates.csv''"
  using str_int_hd [of t] by (auto simp: history_name_def)

lemma snapshot_neq_history: "snapshot_name i \<noteq> history_name t"
  using str_int_hd [of t] by (auto simp: history_name_def snapshot_name_def)

lemma snapshot_prefix: "prefix ''node_displacements_'' (snapshot_name i)"
  by (simp add: snapshot_name_def)

lemma coord_not_snapshot: "\<not> prefix ''node_displacements_'' ''node_coordinates.csv''"
  by simp

lemma history_not_snapshot: "\<not> prefix ''node_displacements_'' (history_name t)"
  using str_int_hd [of t] by (auto simp: history_name_def)

lemma str_int_small:
  "str_int 1 = ''1''" "str_int 2 = ''2''" "str_int 3 = ''3''" "str_int 4 = ''4''"
  "str_int 5 = ''5''" "str_int 6 = ''6''" "str_int 7 = ''7''" "str_int 8 = ''8''"
  "str_int 9 = ''9''" "str_int 10 = ''10''" "str_int 11 = ''11''" "str_int 12 = ''12''"
  by (simp_all add: str_int_def digits10.simps digit_char_def)

lemma upt_12: "[0..<12] = [0, 1, 2, 3, 4, 5, 6, 7, 8, 9, 10, 11]"
  by (simp add: upt_rec)

lemma snapshot_distinct: "distinct (map (\<lambda>j. snapshot_name (int j + 1)) [0..<12])"
  unfolding upt_12 by (simp add: snapshot_name_def str_int_small)

lemma snapshot_fresh:
  assumes "k < 12"
  shows "snapshot_name (int k + 1) \<notin> set (map (\<lambda>j. snapshot_name (int j + 1)) [0..<k])"
proof
  assume "snapshot_name (int k + 1) \<in> set (map (\<lambda>j. snapshot_name (int j + 1)) [0..<k])"
  then obtain j where j: "j < k" "snapshot_name (int j + 1) = snapshot_name (int k + 1)"
    by auto
  have "inj_on (\<lambda>j. snapshot_name (int j + 1)) (set [0..<12])"
    using snapshot_distinct by (simp add: distinct_map)
  with j assms have "j = k" by (auto simp: inj_on_def)
  with j show False by simp
qed

subsection \<open>One iteration\<close>

lemma record_step_Inl:
  assumes "record_step d h t m sol dp p itr st = Inl (p', itr', st')"
  obtains fs ux uy uz where
    "write_disp_rows sol d (getNodeTags m)
       (writerow d [CStr ''Node'', CStr ''ux'', CStr ''uy'', CStr ''uz''] (open_w d (files st)))
     = Inr fs"
    "nodeDisp sol t 1 = Inr ux" "nodeDisp sol t 2 = Inr uy" "nodeDisp sol t 3 = Inr uz"
    "p' = fadd p dp" "itr' = itr + 1"
    "st' = st\<lparr>files := writerow h [CInt itr, CFloat (py_round p 3), CFloat ux, CFloat uy,
                                    CFloat uz] fs,
               stdout := stdout st @ [Wrote_displacements d itr p, Recorded_disp t itr p]\<rparr>"
  using assms unfolding record_step_def Let_def
  by (auto split: sum.splits prod.splits)


lemma record_step_ok:
  assumes "list_all (answered sol) (getNodeTags m @ [t])"
  shows "\<exists>s. record_step d h t m sol dp p itr st = Inl s"
proof -
  from assms have a: "list_all (answered sol) (getNodeTags m)" and b: "answered sol t"
    by simp_all
  from write_disp_rows_ok [OF a] obtain fs where fs:
    "write_disp_rows sol d (getNodeTags m)
       (writerow d [CStr ''Node'', CStr ''ux'', CStr ''uy'', CStr ''uz''] (open_w d (files st)))
     = Inr fs"
    by blast
  from b obtain ux uy uz where
    "nodeDisp sol t 1 = Inr ux" "nodeDisp sol t 2 = Inr uy" "nodeDisp sol t 3 = Inr uz"
    by (cases "nodeDisp sol t 1"; cases "nodeDisp sol t 2"; cases "nodeDisp sol t 3")
       (simp_all add: answered_def)
  then show ?thesis by (simp add: record_step_def fs Let_def)
qed

lemma ramp_body_Inl:
  assumes "ramp_body ops t h dp p itr st = Inl s'"
  obtains m m' sol where
    "create_model ops False = Inr m"
    "static_analysis ops (analyses st) m p = Inr (0, m', sol)"
    "record_step (snapshot_name itr) h t m' sol dp p itr (st\<lparr>analyses := Suc (analyses st)\<rparr>)
     = Inl s'"
  using assms unfolding ramp_body_def Let_def snapshot_name_def
  by (auto split: sum.splits prod.splits if_splits)


section \<open>Setup and loop invariant\<close>

subsection \<open>Setup\<close>

lemma main_setup_Inr:
  assumes "main_setup ops prompt = Inr (t, h, st0)"
  obtains m rows where
    "prompt = Inr t" "h = history_name t" "create_model ops False = Inr m"
    "files st0 = [(''node_coordinates.csv'', [CStr ''Node'', CStr ''x'', CStr ''y'', CStr ''z''] # rows),
                  (history_name t, [[CStr ''Iteration'', CStr ''p'', CStr ''ux'', CStr ''uy'',
                                     CStr ''uz'']])]"
    "stdout st0 = [Wrote_coordinates ''node_coordinates.csv'']"
    "analyses st0 = 0" "raised st0 = None"
proof -
  from assms obtain m where m: "create_model ops False = Inr m"
    by (cases "create_model ops False") (simp_all add: main_setup_def Let_def)
  from write_coord_rows_single [of "getNodeTags m" m "''node_coordinates.csv''"
      "[[CStr ''Node'', CStr ''x'', CStr ''y'', CStr ''z'']]"]
  obtain rows where rows:
    "write_coord_rows m ''node_coordinates.csv'' (getNodeTags m)
       [(''node_coordinates.csv'', [[CStr ''Node'', CStr ''x'', CStr ''y'', CStr ''z'']])]
     = Inr [(''node_coordinates.csv'', [CStr ''Node'', CStr ''x'', CStr ''y'', CStr ''z''] # rows)]"
    by auto
  from assms obtain t' where p: "prompt = Inr t'"
    by (cases prompt) (simp_all add: main_setup_def Let_def m rows)
  from assms have "t' = t" "h = history_name t"
    "st0 = \<lparr>files = [(''node_coordinates.csv'',
                       [CStr ''Node'', CStr ''x'', CStr ''y'', CStr ''z''] # rows),
                      (history_name t, [[CStr ''Iteration'', CStr ''p'', CStr ''ux'', CStr ''uy'',
                                         CStr ''uz'']])],
            stdout = [Wrote_coordinates ''node_coordinates.csv''], analyses = 0, raised = None\<rparr>"
    using history_neq_coord [of t']
    by (auto simp: main_setup_def Let_def m rows p history_name_def)
  with m p show thesis by (intro that [of m rows]) simp_all
qed


lemma main_setup_ok:
  assumes "create_model ops False = Inr m"
  shows "\<exists>st0. main_setup ops (Inr t) = Inr (t, history_name t, st0)"
proof -
  from write_coord_rows_single [of "getNodeTags m" m "''node_coordinates.csv''"
      "[[CStr ''Node'', CStr ''x'', CStr ''y'', CStr ''z'']]"]
  obtain rows where rows:
    "write_coord_rows m ''node_coordinates.csv'' (getNodeTags m)
       [(''node_coordinates.csv'', [[CStr ''Node'', CStr ''x'', CStr ''y'', CStr ''z'']])]
     = Inr [(''node_coordinates.csv'', [CStr ''Node'', CStr ''x'', CStr ''y'', CStr ''z''] # rows)]"
    by auto
  show ?thesis
    by (simp add: main_setup_def Let_def assms rows history_name_def)
qed

lemma run_inv_initial:
  assumes "main_setup ops prompt = Inr (t, h, st0)"
  shows "run_inv st0 t 0 (0, 1, st0)"
  using assms history_neq_coord [of t]
  by (elim main_setup_Inr) (auto simp: run_inv_def pressure_0)

subsection \<open>The invariant of the loop\<close>

lemma run_inv_step:
  assumes inv: "run_inv st0 t k (p, itr, st)"
    and le: "p \<le> 5"
    and body: "ramp_body ops t (history_name t) (float_lit (45 / 100)) p itr st = Inl s'"
  shows "run_inv st0 t (Suc k) s'"
proof -
  from inv have k12: "k \<le> 12" and p: "p = pressure k" and itr: "itr = int k + 1"
    and an: "analyses st = k" and ra: "raised st = None"
    and keys: "map fst (files st) = ''node_coordinates.csv'' # history_name t
                # map (\<lambda>j. snapshot_name (int j + 1)) [0..<k]"
    and coord: "map_of (files st) ''node_coordinates.csv''
                = map_of (files st0) ''node_coordinates.csv''"
    by (simp_all add: run_inv_def)
  from inv obtain rows where
    hist: "map_of (files st) (history_name t)
           = Some ([CStr ''Iteration'', CStr ''p'', CStr ''ux'', CStr ''uy'', CStr ''uz''] # rows)"
    and cols: "map (take 2) rows
               = map (\<lambda>j. [CInt (int j + 1), CFloat (py_round (pressure j) 3)]) [0..<k]"
    by (auto simp: run_inv_def)
  from le p pressure_12_gt_5 k12 have k: "k < 12"
    by (cases "k = 12") auto
  obtain p' itr' st' where s': "s' = (p', itr', st')" by (cases s') auto
  let ?d = "snapshot_name itr"
  let ?st1 = "st\<lparr>analyses := Suc (analyses st)\<rparr>"
  from body obtain m m' sol where
    rs: "record_step ?d (history_name t) t m' sol (float_lit (45 / 100)) p itr ?st1 = Inl s'"
    by (rule ramp_body_Inl)
  from rs [unfolded s'] obtain fs ux uy uz where
    w: "write_disp_rows sol ?d (getNodeTags m')
          (writerow ?d [CStr ''Node'', CStr ''ux'', CStr ''uy'', CStr ''uz'']
             (open_w ?d (files ?st1))) = Inr fs"
    and p': "p' = fadd p (float_lit (45 / 100))" and itr': "itr' = itr + 1"
    and st': "st' = ?st1\<lparr>files := writerow (history_name t)
                          [CInt itr, CFloat (py_round p 3), CFloat ux, CFloat uy, CFloat uz] fs,
                        stdout := stdout ?st1 @ [Wrote_displacements ?d itr p,
                                                 Recorded_disp t itr p]\<rparr>"
    by (rule record_step_Inl)
  have fresh: "?d \<notin> set (map fst (files st))"
    using snapshot_fresh [OF k] snapshot_neq_coord [of "int k + 1"]
      snapshot_neq_history [of "int k + 1" t]
    by (simp add: keys itr)
  from write_disp_rows_keep [where sol = sol and f = ?d and nids = "getNodeTags m'" and
      fs = "writerow ?d [CStr ''Node'', CStr ''ux'', CStr ''uy'', CStr ''uz'']
              (open_w ?d (files ?st1))"] w
  have fs_keys: "map fst fs = map fst (files st) @ [?d]"
    and fs_other: "\<And>g. g \<noteq> ?d \<Longrightarrow> map_of fs g = map_of (files st) g"
    using fresh by (simp_all add: keys_writerow keys_open_w map_of_writerow map_of_open_w)
  have d_ne: "history_name t \<noteq> ?d" "''node_coordinates.csv'' \<noteq> ?d"
    using snapshot_neq_history [of itr t] snapshot_neq_coord [of itr] by auto
  have 1: "map fst (files st') = ''node_coordinates.csv'' # history_name t
                # map (\<lambda>j. snapshot_name (int j + 1)) [0..<Suc k]"
    by (simp add: st' keys_writerow fs_keys keys itr)
  have 2: "map_of (files st') ''node_coordinates.csv''
           = map_of (files st0) ''node_coordinates.csv''"
    using history_neq_coord [of t]
    by (simp add: st' map_of_writerow fs_other [OF d_ne(2)] coord)
  have 3: "map_of (files st') (history_name t)
           = Some ([CStr ''Iteration'', CStr ''p'', CStr ''ux'', CStr ''uy'', CStr ''uz'']
                   # (rows @ [[CInt itr, CFloat (py_round p 3), CFloat ux, CFloat uy,
                               CFloat uz]]))"
    by (simp add: st' map_of_writerow fs_other [OF d_ne(1)] hist)
  have 4: "map (take 2) (rows @ [[CInt itr, CFloat (py_round p 3), CFloat ux, CFloat uy,
                                   CFloat uz]])
           = map (\<lambda>j. [CInt (int j + 1), CFloat (py_round (pressure j) 3)]) [0..<Suc k]"
    by (simp add: cols itr p)
  show ?thesis
    unfolding s' run_inv_def
    using k 1 2 3 4 by (simp add: p' itr' p itr pressure_Suc st' an ra)
qed

section \<open>The loop as a whole\<close>

subsection \<open>The loop\<close>

lemma loop_head_Suc:
  assumes "loop_head ops t h dp s0 (Suc n) = Some s'"
  obtains p itr st where "loop_head ops t h dp s0 n = Some (p, itr, st)" "p \<le> 5"
    "ramp_body ops t h dp p itr st = Inl s'"
  using assms by (auto split: option.splits if_splits sum.splits prod.splits)

lemma ramp_loop_head:
  assumes "loop_head ops t h dp (p0, itr0, st0) n = Some (p, itr, st)"
  shows "ramp ops t h dp p0 itr0 st0 = ramp ops t h dp p itr st"
  using assms
proof (induction n arbitrary: p itr st)
  case 0
  then show ?case by simp
next
  case (Suc n)
  from Suc.prems obtain p1 itr1 st1 where
    h: "loop_head ops t h dp (p0, itr0, st0) n = Some (p1, itr1, st1)" and le: "p1 \<le> 5"
    and b: "ramp_body ops t h dp p1 itr1 st1 = Inl (p, itr, st)"
    by (rule loop_head_Suc)
  have "ramp ops t h dp p0 itr0 st0 = ramp ops t h dp p1 itr1 st1"
    by (rule Suc.IH [OF h])
  also have "\<dots> = ramp ops t h dp p itr st"
    by (subst ramp.simps) (simp add: le b)
  finally show ?case .
qed

lemma run_inv_loop_head:
  assumes "run_inv st0 t 0 (0, 1, st0)"
    and "loop_head ops t (history_name t) (float_lit (45 / 100)) (0, 1, st0) n = Some s"
  shows "run_inv st0 t n s"
  using assms(2)
proof (induction n arbitrary: s)
  case 0
  with assms(1) show ?case by simp
next
  case (Suc n)
  from Suc.prems obtain p itr st where
    h: "loop_head ops t (history_name t) (float_lit (45 / 100)) (0, 1, st0) n = Some (p, itr, st)"
    and le: "p \<le> 5"
    and b: "ramp_body ops t (history_name t) (float_lit (45 / 100)) p itr st = Inl s"
    by (rule loop_head_Suc)
  from run_inv_step [OF Suc.IH [OF h] le b] show ?case .
qed

lemma loop_head_13:
  assumes "run_inv st0 t 0 (0, 1, st0)"
  shows "loop_head ops t (history_name t) (float_lit (45 / 100)) (0, 1, st0) 13 = None"
proof (rule ccontr)
  assume "loop_head ops t (history_name t) (float_lit (45 / 100)) (0, 1, st0) 13 \<noteq> None"
  then obtain s where
    "loop_head ops t (history_name t) (float_lit (45 / 100)) (0, 1, st0) (Suc 12) = Some s"
    by auto
  then obtain p itr st where
    h: "loop_head ops t (history_name t) (float_lit (45 / 100)) (0, 1, st0) 12 = Some (p, itr, st)"
    and le: "p \<le> 5"
    by (rule loop_head_Suc)
  from run_inv_loop_head [OF assms h] have "p = pressure 12" by (simp add: run_inv_def)
  with le pressure_12_gt_5 show False by simp
qed




lemma run_inv_files:
  assumes "run_inv st0 t k (p, itr, st)" and "files fin = files st"
  shows "snapshot_files fin = map (\<lambda>j. snapshot_name (int j + 1)) [0..<k]"
    and "length (data_rows fin (history_name t)) = k"
    and "map (take 2) (data_rows fin (history_name t))
         = map (\<lambda>j. [CInt (int j + 1), CFloat (py_round (pressure j) 3)]) [0..<k]"
    and "map_of (files fin) ''node_coordinates.csv'' = map_of (files st0) ''node_coordinates.csv''"
proof -
  from assms(1) have
    keys: "map fst (files st) = ''node_coordinates.csv'' # history_name t
                # map (\<lambda>j. snapshot_name (int j + 1)) [0..<k]"
    and coord: "map_of (files st) ''node_coordinates.csv''
                = map_of (files st0) ''node_coordinates.csv''"
    by (simp_all add: run_inv_def)
  from assms(1) obtain rows where
    hist: "map_of (files st) (history_name t)
           = Some ([CStr ''Iteration'', CStr ''p'', CStr ''ux'', CStr ''uy'', CStr ''uz''] # rows)"
    and cols: "map (take 2) rows
               = map (\<lambda>j. [CInt (int j + 1), CFloat (py_round (pressure j) 3)]) [0..<k]"
    by (auto simp: run_inv_def)
  have "filter (prefix ''node_displacements_'') (map (\<lambda>j. snapshot_name (int j + 1)) [0..<k])
        = map (\<lambda>j. snapshot_name (int j + 1)) [0..<k]"
    by (rule filter_True) (auto simp: snapshot_prefix)
  then show "snapshot_files fin = map (\<lambda>j. snapshot_name (int j + 1)) [0..<k]"
    using history_not_snapshot [of t]
    by (simp add: snapshot_files_def assms(2) keys)
  show "map (take 2) (data_rows fin (history_name t))
         = map (\<lambda>j. [CInt (int j + 1), CFloat (py_round (pressure j) 3)]) [0..<k]"
    by (simp add: data_rows_def assms(2) hist cols)
  from arg_cong [OF this, of length]
  show "length (data_rows fin (history_name t)) = k" by simp
  show "map_of (files fin) ''node_coordinates.csv'' = map_of (files st0) ''node_coordinates.csv''"
    by (simp add: assms(2) coord)
qed

section \<open>The fixity search\<close>

subsection \<open>The stub engines\<close>

lemma stub_surface:
  "surface_gen (stub_engine f) shape etype args pts
   = Inr \<lparr>surf_nodes = map (\<lambda>(t, c). (t, c ! 0, c ! 1, c ! 2)) pts,
          surf_cells = [(1, map fst pts)],
          surf_walk_edge = [[1, 2], [2, 3], [3, 4], [4, 1]]\<rparr>"
  by (simp add: stub_engine_def)

lemma stub_model:
  obtains m where "create_model (stub_engine f) w = Inr m" "getNodeTags m = [1, 2, 3, 4]"
    "node_table m = map (\<lambda>(t, c). (t, c ! 0, c ! 1, c ! 2)) points"
proof -
  have "element_error (stub_engine f) m e = None" for m e
    by (simp add: stub_engine_def)
  from build_geometry_accepted [OF stub_surface this]
  obtain m0 where "build_geometry (stub_engine f) = Inr m0" by blast
  from create_model_built [OF this, of w]
  obtain m where m: "create_model (stub_engine f) w = Inr m" by blast
  from m obtain s where s: "surface_gen (stub_engine f) (10, 10) ''ShellMITC4'' [1] points = Inr s"
    and ns: "node_table m = surf_nodes s"
    by (rule create_model_Inr)
  from s have "s = \<lparr>surf_nodes = map (\<lambda>(t, c). (t, c ! 0, c ! 1, c ! 2)) points,
          surf_cells = [(1, map fst points)],
          surf_walk_edge = [[1, 2], [2, 3], [3, 4], [4, 1]]\<rparr>"
    unfolding stub_surface by simp
  with ns have nt: "node_table m = map (\<lambda>(t, c). (t, c ! 0, c ! 1, c ! 2)) points"
    by simp
  then have "getNodeTags m = [1, 2, 3, 4]"
    by (simp add: getNodeTags_def points_def)
  from that [OF m this nt] show thesis .
qed

lemma stub_nodeDisp:
  assumes "nid \<in> fst ` set nt" and "dof \<in> {1, 2, 3}"
  shows "nodeDisp (map (\<lambda>(t, c). (t, [0, 0, 0, 0, 0, 0])) nt) nid dof = Inr 0"
proof -
  from assms(1) have "map_of (map (\<lambda>(t, c). (t, [0, 0, 0, 0, 0, 0::rat])) nt) nid
      = Some [0, 0, 0, 0, 0, 0]"
    by (induction nt) auto
  with assms(2) show ?thesis by (auto simp: nodeDisp_def)
qed

lemma stub_nodeDisp_missing:
  assumes "nid \<notin> fst ` set nt"
  shows "nodeDisp (map (\<lambda>(t, c). (t, [0, 0, 0, 0, 0, 0])) nt) nid dof
         = Inl (EngineError ''nodeDisp'')"
proof -
  from assms have "map_of (map (\<lambda>(t, c). (t, [0, 0, 0, 0, 0, 0::rat])) nt) nid = None"
    by (induction nt) auto
  then show ?thesis by (simp add: nodeDisp_def)
qed

lemma stub_static:
  obtains m_in where
    "static_analysis (stub_engine f) n m p =
       (case f n of
          Inl e \<Rightarrow> Inl e
        | Inr res \<Rightarrow> Inr (res, m_in, map (\<lambda>(t, c). (t, [0, 0, 0, 0, 0, 0])) (node_table m)))"
    "node_table m_in = node_table m"
proof -
  obtain m_in where 1: "static_analysis (stub_engine f) n m p =
       (case analyze_gen (stub_engine f) n m_in 1 of
          Inl e \<Rightarrow> Inl e
        | Inr (res, sol) \<Rightarrow> Inr (res, m_in, sol))"
    and 2: "node_table m_in = node_table m"
    by (rule static_analysis_cases)
  have "static_analysis (stub_engine f) n m p =
       (case f n of
          Inl e \<Rightarrow> Inl e
        | Inr res \<Rightarrow> Inr (res, m_in, map (\<lambda>(t, c). (t, [0, 0, 0, 0, 0, 0])) (node_table m)))"
    unfolding 1 by (cases "f n") (simp_all add: stub_engine_def 2)
  then show thesis using 2 by (rule that)
qed

lemma stub_step_accepted:
  assumes "f k = Inr 0" and "t \<in> {1, 2, 3, 4}"
  shows "step_accepted (stub_engine f) t k"
proof -
  obtain m where m: "create_model (stub_engine f) False = Inr m"
    and tags: "getNodeTags m = [1, 2, 3, 4]"
    by (rule stub_model)
  obtain m_in where s: "static_analysis (stub_engine f) k m (pressure k) =
       (case f k of
          Inl e \<Rightarrow> Inl e
        | Inr res \<Rightarrow> Inr (res, m_in, map (\<lambda>(t, c). (t, [0, 0, 0, 0, 0, 0])) (node_table m)))"
    and nt: "node_table m_in = node_table m"
    by (rule stub_static)
  have tags': "getNodeTags m_in = [1, 2, 3, 4]"
    using tags by (simp add: getNodeTags_def nt)
  from tags have "set (map fst (node_table m)) = set [1, 2, 3, 4]"
    by (simp add: getNodeTags_def)
  then have f: "fst ` set (node_table m) = {1, 2, 3, 4}" by simp
  have "\<And>nid. nid \<in> {1, 2, 3, 4} \<Longrightarrow>
      answered (map (\<lambda>(t, c). (t, [0, 0, 0, 0, 0, 0])) (node_table m)) nid"
    by (simp add: answered_def stub_nodeDisp f)
  with assms(2) show ?thesis
    by (simp add: step_accepted_def m s assms(1) tags')
qed

subsection \<open>Claims on the model\<close>



section \<open>Fixity targets without a node\<close>

















section \<open>Loads and the edge frame\<close>

lemma pressure_loads_count:
  "length (filter (\<lambda>l. load_node l = nid) (pressure_loads m p))
   = (\<Sum>e\<leftarrow>ele_table m. count_list (ele_nodes e) nid)"
proof -
  have one: "length (filter (\<lambda>n. n = nid) ns) = count_list ns nid" for ns :: "int list"
    by (induction ns) auto
  have "length (filter (\<lambda>l. load_node l = nid)
           (concat (map (\<lambda>e. map (\<lambda>n. \<lparr>load_node = n, load_values = [0, - p, 0, 0, 0, 0],
                                          load_pattern = 1\<rparr>) (ele_nodes e)) es)))
        = (\<Sum>e\<leftarrow>es. count_list (ele_nodes e) nid)" for es
    by (induction es) (simp_all add: filter_map comp_def one)
  then show ?thesis by (simp add: pressure_loads_def)
qed

text \<open>
  C4: \<open>static_analysis\<close> adds to load pattern 1, for every element and every node that the
  element references, one nodal force \<open>(0, -p, 0, 0, 0, 0)\<close>, and hands the model with
  these loads to the solver; a node referenced by \<open>k\<close> elements so receives \<open>k * p\<close> in the
  negative y direction. Element tags are unique in a model, and the count by elements
  supposes that no element lists a node twice.
\<close>

theorem static_analysis_nodal_loads:
  assumes "distinct (getEleTags m)"
  shows "\<exists>m_in. static_analysis ops n m p =
            (case analyze_gen ops n m_in 1 of
               Inl e \<Rightarrow> Inl e
             | Inr (res, sol) \<Rightarrow> Inr (res, m_in, sol))
          \<and> loads m_in = loads m @ pressure_loads m p
          \<and> list_all (\<lambda>l. load_values l = [0, - p, 0, 0, 0, 0] \<and> load_pattern l = 1)
               (pressure_loads m p)
          \<and> length (filter (\<lambda>l. load_node l = nid) (pressure_loads m p))
              = (\<Sum>e\<leftarrow>ele_table m. count_list (ele_nodes e) nid)
          \<and> (list_all (\<lambda>e. distinct (ele_nodes e)) (ele_table m) \<longrightarrow>
               (\<Sum>l\<leftarrow>filter (\<lambda>l. load_node l = nid) (pressure_loads m p). load_values l ! 1)
               = - (of_nat (adjacency m nid) * p))"
proof -
  obtain m_in where 1: "static_analysis ops n m p =
            (case analyze_gen ops n m_in 1 of
               Inl e \<Rightarrow> Inl e
             | Inr (res, sol) \<Rightarrow> Inr (res, m_in, sol))"
    and 2: "distinct (getEleTags m) \<Longrightarrow> loads m_in = loads m @ pressure_loads m p"
    by (rule static_analysis_cases [where ops = ops and n = n and m = m and p = p]) blast
  have 3: "list_all (\<lambda>l. load_values l = [0, - p, 0, 0, 0, 0] \<and> load_pattern l = 1)
               (pressure_loads m p)"
    by (auto simp: pressure_loads_def list_all_iff)
  have 4: "list_all (\<lambda>e. distinct (ele_nodes e)) (ele_table m) \<longrightarrow>
               (\<Sum>l\<leftarrow>filter (\<lambda>l. load_node l = nid) (pressure_loads m p). load_values l ! 1)
               = - (of_nat (adjacency m nid) * p)"
    using pressure_loads_sum [of m nid p] by (simp add: list_all_iff)
  from 1 2 [OF assms] 3 4 pressure_loads_count [of nid m p] show ?thesis
    by (intro exI [of _ m_in]) simp
qed

theorem static_analysis_nodal_loads_witness:
  "\<exists>m_in. static_analysis converging_engine 0 two_element_model 3 = Inr (0, m_in, [])
     \<and> loads m_in = pressure_loads two_element_model 3
     \<and> (\<Sum>l\<leftarrow>filter (\<lambda>l. load_node l = 1) (pressure_loads two_element_model 3).
          load_values l ! 1) = - 6
     \<and> length (filter (\<lambda>l. load_node l = 1) (pressure_loads two_element_model 3)) = 2"
proof -
  have d: "distinct (getEleTags two_element_model)"
    by (simp add: getEleTags_def two_element_model_def)
  have e: "list_all (\<lambda>e. distinct (ele_nodes e)) (ele_table two_element_model)"
    by (simp add: two_element_model_def)
  have a: "adjacency two_element_model 1 = 2"
    by (simp add: adjacency_def two_element_model_def)
  have l: "loads two_element_model = []" "node_table two_element_model = []"
    by (simp_all add: two_element_model_def Model_def)
  have c: "(\<Sum>e\<leftarrow>ele_table two_element_model. count_list (ele_nodes e) 1) = 2"
    by (simp add: two_element_model_def)
  from static_analysis_nodal_loads [OF d, of converging_engine 0 3 1]
  obtain m_in where m_in: "static_analysis converging_engine 0 two_element_model 3 =
            (case analyze_gen converging_engine 0 m_in 1 of
               Inl e \<Rightarrow> Inl e
             | Inr (res, sol) \<Rightarrow> Inr (res, m_in, sol))"
    "loads m_in = loads two_element_model @ pressure_loads two_element_model 3"
    "length (filter (\<lambda>l. load_node l = 1) (pressure_loads two_element_model 3))
              = (\<Sum>e\<leftarrow>ele_table two_element_model. count_list (ele_nodes e) 1)"
    "list_all (\<lambda>e. distinct (ele_nodes e)) (ele_table two_element_model) \<longrightarrow>
               (\<Sum>l\<leftarrow>filter (\<lambda>l. load_node l = 1) (pressure_loads two_element_model 3).
                  load_values l ! 1)
               = - (of_nat (adjacency two_element_model 1) * 3)"
    by blast
  obtain m_in' where s: "static_analysis converging_engine 0 two_element_model 3 =
       (case (Inr 0 :: py_exception + int) of
          Inl e \<Rightarrow> Inl e
        | Inr res \<Rightarrow> Inr (res, m_in', map (\<lambda>(t, c). (t, [0, 0, 0, 0, 0, 0]))
                                       (node_table two_element_model)))"
    unfolding converging_engine_def by (rule stub_static)
  from m_in(1) s have "static_analysis converging_engine 0 two_element_model 3 = Inr (0, m_in, [])"
    by (cases "analyze_gen converging_engine 0 m_in 1") (auto simp: l)
  with m_in(2-4) e a c l show ?thesis
    by (intro exI [of _ m_in]) simp
qed

text \<open>
  C8: the parameter \<open>walk_edge\<close> of \<open>create_model\<close> has no effect: both values give the
  same result, and the frame elements along the perimeter are created in either case, one
  \<open>PrismFrame\<close> on section 5 for each entry of the edge walk of the surface, after the
  shell elements.
\<close>

theorem walk_edge_has_no_effect:
  "create_model ops True = create_model ops False
   \<and> (\<forall>w m s. create_model ops w = Inr m
         \<longrightarrow> surface_gen ops (10, 10) ''ShellMITC4'' [1] points = Inr s
         \<longrightarrow> map (\<lambda>e. (ele_type e, ele_nodes e, ele_section e, ele_vertical e))
               (drop (length (surf_cells s)) (ele_table m))
             = map (\<lambda>ns. (''PrismFrame'', ns, 5, [0, 0, 1])) (surf_walk_edge s))"
proof -
  have "map (\<lambda>e. (ele_type e, ele_nodes e, ele_section e, ele_vertical e))
               (drop (length (surf_cells s)) (ele_table m))
             = map (\<lambda>ns. (''PrismFrame'', ns, 5, [0, 0, 1])) (surf_walk_edge s)"
    if m: "create_model ops w = Inr m"
      and s: "surface_gen ops (10, 10) ''ShellMITC4'' [1] points = Inr s" for w m s
  proof -
    from m obtain s' fr where s': "surface_gen ops (10, 10) ''ShellMITC4'' [1] points = Inr s'"
      and et: "ele_table m =
         map (\<lambda>(t, ns). \<lparr>ele_tag = t, ele_type = ''ShellMITC4'', ele_nodes = ns, ele_section = 1,
                          ele_vertical = []\<rparr>) (surf_cells s') @ fr"
      and fr: "map ele_nodes fr = surf_walk_edge s'"
        "\<forall>e \<in> set fr. ele_type e = ''PrismFrame'' \<and> ele_section e = 5 \<and> ele_vertical e = [0, 0, 1]"
      by (rule create_model_Inr)
    from s s' have [simp]: "s' = s" by simp
    have "map (\<lambda>e. (ele_type e, ele_nodes e, ele_section e, ele_vertical e)) fr
          = map (\<lambda>ns. (''PrismFrame'', ns, 5, [0, 0, 1])) (map ele_nodes fr)"
      using fr(2) by (induction fr) auto
    then show ?thesis using fr(1) by (simp add: et)
  qed
  moreover have "create_model ops True = create_model ops False"
    unfolding create_model_def by (rule refl)
  ultimately show ?thesis by blast
qed

theorem walk_edge_has_no_effect_witness:
  "create_model converging_engine True = create_model converging_engine False
   \<and> map ele_nodes (drop 1 (ele_table (projr (create_model converging_engine True))))
     = [[1, 2], [2, 3], [3, 4], [4, 1]]"
proof -
  obtain m where m: "create_model converging_engine True = Inr m"
    unfolding converging_engine_def by (rule stub_model)
  have s: "surface_gen converging_engine (10, 10) ''ShellMITC4'' [1] points
           = Inr \<lparr>surf_nodes = map (\<lambda>(t, c). (t, c ! 0, c ! 1, c ! 2)) points,
                  surf_cells = [(1, map fst points)],
                  surf_walk_edge = [[1, 2], [2, 3], [3, 4], [4, 1]]\<rparr>"
    unfolding converging_engine_def by (rule stub_surface)
  from walk_edge_has_no_effect [of converging_engine] m s
  have "create_model converging_engine True = create_model converging_engine False"
    and "map (\<lambda>e. (ele_type e, ele_nodes e, ele_section e, ele_vertical e))
           (drop 1 (ele_table m))
         = map (\<lambda>ns. (''PrismFrame'', ns, 5, [0, 0, 1])) [[1, 2], [2, 3], [3, 4], [4, 1]]"
    by auto
  note eq = this(1) and frames = arg_cong [OF this(2), of "map (\<lambda>x. fst (snd x))"]
  from m eq have m': "create_model converging_engine False = Inr m" by simp
  from frames show ?thesis
    by (simp add: m m' o_def)
qed

section \<open>The runs of the driver\<close>

lemma decimal_list:
  "map (\<lambda>k. float_lit (of_nat k * 45 / 100)) [0..<12] =
     [0,
      8106479329266893 / 18014398509481984,
      8106479329266893 / 9007199254740992,
      3039929748475085 / 2251799813685248,
      8106479329266893 / 4503599627370496,
      9 / 4,
      3039929748475085 / 1125899906842624,
      7093169413108531 / 2251799813685248,
      8106479329266893 / 2251799813685248,
      4559894622712627 / 1125899906842624,
      9 / 2,
      5573204538870989 / 1125899906842624]"
  unfolding upt_12 by (simp add: float_eval)

lemma rounded_Suc_0: "py_round (pressure (Suc 0)) 3 = 8106479329266893 / 18014398509481984"
  using rounded_1 by simp

lemma rounded_list:
  "map (\<lambda>k. py_round (pressure k) 3) [0..<12] =
     [0,
      8106479329266893 / 18014398509481984,
      8106479329266893 / 9007199254740992,
      3039929748475085 / 2251799813685248,
      8106479329266893 / 4503599627370496,
      9 / 4,
      3039929748475085 / 1125899906842624,
      7093169413108531 / 2251799813685248,
      8106479329266893 / 2251799813685248,
      4559894622712627 / 1125899906842624,
      9 / 2,
      5573204538870989 / 1125899906842624]"
  unfolding upt_12 by (simp add: rounded_values rounded_Suc_0)

lemma rounded_decimal:
  "map (\<lambda>k. py_round (pressure k) 3) [0..<12]
   = map (\<lambda>k. float_lit (of_nat k * 45 / 100)) [0..<12]"
  unfolding rounded_list decimal_list by (rule refl)

lemma decimal_sorted: "sorted_wrt (<) (map (\<lambda>k. float_lit (of_nat k * 45 / 100)) [0..<12])"
  unfolding decimal_list by simp

lemma iteration_sorted: "sorted_wrt (<) (map (\<lambda>k. int k + 1) [0..<12])"
  unfolding upt_12 by simp

lemma ramp_body_accepted:
  assumes "create_model ops False = Inr m"
    and "static_analysis ops (analyses st) m p = Inr (0, m', sol)"
  shows "ramp_body ops t h dp p itr st
         = record_step (snapshot_name itr) h t m' sol dp p itr (st\<lparr>analyses := Suc (analyses st)\<rparr>)"
  by (simp add: ramp_body_def assms Let_def snapshot_name_def)

lemma accepted_prefix:
  assumes init: "main_setup ops (Inr t) = Inr (t, history_name t, st0)"
    and acc: "\<forall>j<k. step_accepted ops t j" and k: "k \<le> 12"
  shows "\<exists>st. loop_head ops t (history_name t) (float_lit (45 / 100)) (0, 1, st0) k
              = Some (pressure k, int k + 1, st)"
  using acc k
proof (induction k)
  case 0
  show ?case by (simp add: pressure_0)
next
  case (Suc k)
  then obtain st where
    h: "loop_head ops t (history_name t) (float_lit (45 / 100)) (0, 1, st0) k
        = Some (pressure k, int k + 1, st)"
    by auto
  have inv: "run_inv st0 t k (pressure k, int k + 1, st)"
    by (rule run_inv_loop_head [OF run_inv_initial [OF init] h])
  then have an: "analyses st = k" by (simp add: run_inv_def)
  from Suc.prems have le: "pressure k \<le> 5" by (intro pressure_le_5) simp
  from Suc.prems have "step_accepted ops t k" by simp
  then obtain m m' sol where m: "create_model ops False = Inr m"
    and s: "static_analysis ops k m (pressure k) = Inr (0, m', sol)"
    and a: "list_all (answered sol) (getNodeTags m' @ [t])"
    unfolding step_accepted_def
    by (auto split: sum.splits prod.splits)
  from record_step_ok [OF a] obtain s' where
    r: "record_step (snapshot_name (int k + 1)) (history_name t) t m' sol (float_lit (45 / 100))
          (pressure k) (int k + 1) (st\<lparr>analyses := Suc (analyses st)\<rparr>) = Inl s'"
    by blast
  from s an have sa: "static_analysis ops (analyses st) m (pressure k) = Inr (0, m', sol)"
    by simp
  have b: "ramp_body ops t (history_name t) (float_lit (45 / 100)) (pressure k) (int k + 1) st
           = Inl s'"
    unfolding ramp_body_accepted [OF m sa] by (rule r)
  obtain p' itr' st' where s': "s' = (p', itr', st')" by (cases s') auto
  from r [unfolded s'] have "p' = fadd (pressure k) (float_lit (45 / 100))" "itr' = int k + 1 + 1"
    by (auto elim: record_step_Inl)
  then have "s' = (pressure (Suc k), int (Suc k) + 1, st')"
    by (simp add: s' pressure_Suc)
  with h le b show ?case by auto
qed

text \<open>
  C1 (amended): in every run in which the prompt yields a node id, the model builds, every
  call of \<open>static_analysis\<close> returns 0 and the displacements of the nodes and of the tracked
  node can be read, the loop runs with the pressures obtained by adding \<open>dp = 0.45\<close>
  repeatedly to \<open>0.0\<close>, which are 0.0, 0.45, 0.9, ... to three decimals; no step has a
  pressure above 5.0; there are exactly 12 steps, the thirteenth value being above 5.0; 12
  snapshot files are written, and the history file has 12 data rows whose iteration and
  pressure columns, 1 to 12 and 0.0 to 4.95, increase strictly.
\<close>

theorem ramp_converged_run:
  assumes "\<forall>k<12. step_accepted ops target_nid k"
  shows "\<exists>fin. main ops (Inr target_nid) = Some fin \<and> raised fin = None \<and> analyses fin = 12
          \<and> (\<forall>k\<le>12. \<exists>st. loop_state ops (Inr target_nid) k
                = Some (target_nid, history_name target_nid, pressure k, int k + 1, st))
          \<and> loop_state ops (Inr target_nid) 13 = None
          \<and> (\<forall>k<12. pressure k \<le> 5) \<and> 5 < pressure 12
          \<and> map (\<lambda>k. py_round (pressure k) 3) [0..<12]
              = map (\<lambda>k. float_lit (of_nat k * 45 / 100)) [0..<12]
          \<and> snapshot_files fin = map (\<lambda>k. snapshot_name (int k + 1)) [0..<12]
          \<and> distinct (snapshot_files fin) \<and> length (snapshot_files fin) = 12
          \<and> length (data_rows fin (history_name target_nid)) = 12
          \<and> map (take 2) (data_rows fin (history_name target_nid))
              = map (\<lambda>k. [CInt (int k + 1), CFloat (float_lit (of_nat k * 45 / 100))]) [0..<12]
          \<and> sorted_wrt (<) (map (\<lambda>k. int k + 1) [0..<12])
          \<and> sorted_wrt (<) (map (\<lambda>k. float_lit (of_nat k * 45 / 100)) [0..<12])"
proof -
  let ?t = target_nid
  let ?lh = "loop_head ops ?t (history_name ?t) (float_lit (45 / 100))"
  from assms have "step_accepted ops ?t 0" by simp
  then obtain m where "create_model ops False = Inr m"
    by (cases "create_model ops False") (simp_all add: step_accepted_def)
  from main_setup_ok [OF this] obtain st0 where
    init: "main_setup ops (Inr ?t) = Inr (?t, history_name ?t, st0)"
    by blast
  have inv0: "run_inv st0 ?t 0 (0, 1, st0)" by (rule run_inv_initial [OF init])
  have heads: "\<exists>st. ?lh (0, 1, st0) k = Some (pressure k, int k + 1, st)" if "k \<le> 12" for k
    using assms that by (intro accepted_prefix [OF init]) auto
  then obtain fin where fin: "?lh (0, 1, st0) 12 = Some (pressure 12, int 12 + 1, fin)"
    by blast
  have inv: "run_inv st0 ?t 12 (pressure 12, int 12 + 1, fin)"
    by (rule run_inv_loop_head [OF inv0 fin])
  have "ramp ops ?t (history_name ?t) (float_lit (45 / 100)) 0 1 st0
        = ramp ops ?t (history_name ?t) (float_lit (45 / 100)) (pressure 12) (int 12 + 1) fin"
    by (rule ramp_loop_head [OF fin])
  also have "\<dots> = Some fin"
    using pressure_12_gt_5 by (subst ramp.simps) simp
  finally have m: "main ops (Inr ?t) = Some fin"
    unfolding main_def init by (simp add: Let_def)
  have states: "\<forall>k\<le>12. \<exists>st. loop_state ops (Inr ?t) k
                = Some (?t, history_name ?t, pressure k, int k + 1, st)"
  proof (intro allI impI)
    fix k :: nat
    assume "k \<le> 12"
    from heads [OF this] obtain st where
      "?lh (0, 1, st0) k = Some (pressure k, int k + 1, st)"
      by blast
    then have "loop_state ops (Inr ?t) k
                = Some (?t, history_name ?t, pressure k, int k + 1, st)"
      unfolding loop_state_def init by simp
    then show "\<exists>st. loop_state ops (Inr ?t) k
                = Some (?t, history_name ?t, pressure k, int k + 1, st)"
      by (rule exI)
  qed
  have last: "loop_state ops (Inr ?t) 13 = None"
    using loop_head_13 [OF inv0, of ops] unfolding loop_state_def init by simp
  from inv have r: "raised fin = None" "analyses fin = 12" by (simp_all add: run_inv_def)
  note f = run_inv_files [OF inv refl]
  have d: "distinct (snapshot_files fin)" unfolding f(1) by (rule snapshot_distinct)
  have n: "length (snapshot_files fin) = 12" unfolding f(1) by simp
  have cols: "map (take 2) (data_rows fin (history_name ?t))
              = map (\<lambda>k. [CInt (int k + 1), CFloat (float_lit (of_nat k * 45 / 100))]) [0..<12]"
    unfolding f(3) using rounded_decimal
    by (simp add: list_eq_iff_nth_eq)
  have ple: "\<forall>k<12. pressure k \<le> 5" using pressure_le_5 by blast
  show ?thesis
    by (intro exI [of _ fin] conjI)
       (fact m r states last ple pressure_12_gt_5 rounded_decimal f(1) d n f(2) cols
          iteration_sorted decimal_sorted)+
qed

theorem ramp_converged_run_witness:
  "\<exists>fin. main converging_engine (Inr 1) = Some fin \<and> raised fin = None
     \<and> length (snapshot_files fin) = 12 \<and> length (data_rows fin (history_name 1)) = 12"
proof -
  have "\<forall>k<12. step_accepted converging_engine 1 k"
    unfolding converging_engine_def by (simp add: stub_step_accepted)
  from ramp_converged_run [OF this] show ?thesis by blast
qed

section \<open>Runs that stop\<close>

lemma loop_state_Some:
  assumes "loop_state ops prompt k = Some (t, h, p, itr, st)"
  obtains st0 where "main_setup ops prompt = Inr (t, history_name t, st0)" "h = history_name t"
    "loop_head ops t (history_name t) (float_lit (45 / 100)) (0, 1, st0) k = Some (p, itr, st)"
    "run_inv st0 t k (p, itr, st)"
    "main ops prompt = ramp ops t (history_name t) (float_lit (45 / 100)) p itr st"
proof -
  from assms obtain st0 where s: "main_setup ops prompt = Inr (t, h, st0)"
    and l: "loop_head ops t h (float_lit (45 / 100)) (0, 1, st0) k = Some (p, itr, st)"
    unfolding loop_state_def
    by (auto split: sum.splits prod.splits option.splits)
  from s have h: "h = history_name t" by (elim main_setup_Inr)
  note s = s [unfolded h] and l = l [unfolded h]
  have inv: "run_inv st0 t k (p, itr, st)"
    by (rule run_inv_loop_head [OF run_inv_initial [OF s] l])
  have "main ops prompt = ramp ops t (history_name t) (float_lit (45 / 100)) 0 1 st0"
    unfolding main_def s by (simp add: Let_def)
  also have "\<dots> = ramp ops t (history_name t) (float_lit (45 / 100)) p itr st"
    by (rule ramp_loop_head [OF l])
  finally show thesis using s h l inv by (intro that [of st0])
qed

lemma ramp_breaks:
  assumes "p \<le> 5" and "ramp_body ops t h dp p itr st = Inr fin"
  shows "ramp ops t h dp p itr st = Some fin"
  by (subst ramp.simps) (simp add: assms)

text \<open>
  C5: when \<open>static_analysis\<close> returns a status other than 0 in the iteration that follows \<open>k\<close>
  complete ones, the driver prints the iteration and the pressure and leaves the loop; the
  run ends without an exception, with the files as they were before that iteration:
  \<open>k\<close> snapshot files and \<open>k\<close> data rows in the history file.
\<close>

theorem ramp_stops_when_not_converged:
  assumes "loop_state ops prompt k = Some (target_nid, history_fname, p, itr, st)"
    and "p \<le> 5"
    and "create_model ops False = Inr m"
    and "static_analysis ops (analyses st) m p = Inr (res, m', sol)"
    and "res \<noteq> 0"
  shows "\<exists>fin. main ops prompt = Some fin \<and> raised fin = None
          \<and> stdout fin = stdout st @ [Failed_to_converge (int k + 1) (pressure k)]
          \<and> files fin = files st
          \<and> length (snapshot_files fin) = k
          \<and> length (data_rows fin history_fname) = k"
proof -
  from assms(1) obtain st0 where h: "history_fname = history_name target_nid"
    and inv: "run_inv st0 target_nid k (p, itr, st)"
    and mn: "main ops prompt
             = ramp ops target_nid (history_name target_nid) (float_lit (45 / 100)) p itr st"
    by (rule loop_state_Some)
  let ?fin = "st\<lparr>analyses := Suc (analyses st), stdout := stdout st @ [Failed_to_converge itr p]\<rparr>"
  have "ramp_body ops target_nid (history_name target_nid) (float_lit (45 / 100)) p itr st
        = Inr ?fin"
    by (simp add: ramp_body_def assms(3-5) Let_def)
  from ramp_breaks [OF assms(2) this] mn have m: "main ops prompt = Some ?fin" by simp
  from inv have i: "p = pressure k" "itr = int k + 1" "raised st = None"
    by (simp_all add: run_inv_def)
  have f: "files ?fin = files st" by simp
  note r = run_inv_files [OF inv f]
  from m i r(1,2) show ?thesis
    by (intro exI [of _ ?fin]) (simp add: h)
qed

theorem ramp_stops_when_not_converged_witness:
  "\<exists>fin. main failing_engine (Inr 1) = Some fin \<and> raised fin = None
     \<and> length (snapshot_files fin) = 2 \<and> length (data_rows fin (history_name 1)) = 2"
proof -
  obtain m where m: "create_model failing_engine False = Inr m"
    unfolding failing_engine_def by (rule stub_model)
  from main_setup_ok [OF m] obtain st0 where
    init: "main_setup failing_engine (Inr 1) = Inr (1, history_name 1, st0)"
    by blast
  have "\<forall>j<2. step_accepted failing_engine 1 j"
    unfolding failing_engine_def by (simp add: stub_step_accepted)
  from accepted_prefix [OF init this] obtain st where
    lh: "loop_head failing_engine 1 (history_name 1) (float_lit (45 / 100)) (0, 1, st0) 2
         = Some (pressure 2, int 2 + 1, st)"
    by auto
  then have ls: "loop_state failing_engine (Inr 1) 2
                 = Some (1, history_name 1, pressure 2, int 2 + 1, st)"
    unfolding loop_state_def init by simp
  have "run_inv st0 1 2 (pressure 2, int 2 + 1, st)"
    by (rule run_inv_loop_head [OF run_inv_initial [OF init] lh])
  then have an: "analyses st = 2" by (simp add: run_inv_def)
  obtain m_in where "static_analysis failing_engine 2 m (pressure 2) =
       (case (if (2::nat) = 2 then Inr 1 else Inr 0 :: py_exception + int) of
          Inl e \<Rightarrow> Inl e
        | Inr res \<Rightarrow> Inr (res, m_in, map (\<lambda>(t, c). (t, [0, 0, 0, 0, 0, 0])) (node_table m)))"
    unfolding failing_engine_def by (rule stub_static)
  then have sa: "static_analysis failing_engine (analyses st) m (pressure 2)
                 = Inr (1, m_in, map (\<lambda>(t, c). (t, [0, 0, 0, 0, 0, 0])) (node_table m))"
    by (simp add: an)
  have le: "pressure 2 \<le> 5" by (rule pressure_le_5) simp
  from ramp_stops_when_not_converged [OF ls le m sa] show ?thesis by auto
qed

text \<open>
  C6: \<open>static_analysis\<close> propagates an exception of the solver unchanged: when
  \<open>model.analyze\<close> raises \<open>e\<close> on the model that \<open>static_analysis\<close> has prepared, the call
  of \<open>static_analysis\<close> ends with \<open>e\<close>, after that single invocation. When this happens in the
  iteration that follows \<open>k\<close> complete ones, the driver prints a message with \<open>e\<close> and leaves
  the loop: the run ends without an exception and nothing of that iteration is exported. The
  coordinates file is as the startup wrote it; when the first call raises, no snapshot file
  and no data row of the history exist.
\<close>

theorem ramp_stops_on_engine_exception:
  assumes "main_setup ops prompt = Inr (target_nid, history_fname, st0)"
    and "loop_state ops prompt k = Some (target_nid, history_fname, p, itr, st)"
    and "p \<le> 5"
    and "create_model ops False = Inr m"
    and "solver_input m p = Inr m_in"
    and "analyze_gen ops (analyses st) m_in 1 = Inl e"
  shows "static_analysis ops (analyses st) m p = Inl e
         \<and> (\<exists>fin. main ops prompt = Some fin \<and> raised fin = None
               \<and> analyses fin = Suc (analyses st)
               \<and> stdout fin = stdout st @ [Analysis_threw (pressure k) e]
               \<and> files fin = files st
               \<and> length (snapshot_files fin) = k
               \<and> length (data_rows fin history_fname) = k
               \<and> map_of (files fin) ''node_coordinates.csv''
                   = map_of (files st0) ''node_coordinates.csv''
               \<and> map_of (files st0) ''node_coordinates.csv'' \<noteq> None
               \<and> (k = 0 \<longrightarrow> files fin = files st0 \<and> snapshot_files fin = []
                           \<and> data_rows fin history_fname = []))"
proof -
  from assms(2) obtain st0' where s0: "main_setup ops prompt = Inr (target_nid, history_name target_nid, st0')"
    and h: "history_fname = history_name target_nid"
    and lh: "loop_head ops target_nid (history_name target_nid) (float_lit (45 / 100))
               (0, 1, st0') k = Some (p, itr, st)"
    and inv: "run_inv st0' target_nid k (p, itr, st)"
    and mn: "main ops prompt
             = ramp ops target_nid (history_name target_nid) (float_lit (45 / 100)) p itr st"
    by (rule loop_state_Some)
  from s0 assms(1) have st0: "st0' = st0" by simp
  have sa: "static_analysis ops (analyses st) m p = Inl e"
    by (simp only: static_analysis_solver assms(5) assms(6) sum.case)
  let ?fin = "st\<lparr>analyses := Suc (analyses st), stdout := stdout st @ [Analysis_threw p e]\<rparr>"
  have "ramp_body ops target_nid (history_name target_nid) (float_lit (45 / 100)) p itr st
        = Inr ?fin"
    by (simp add: ramp_body_def assms(4) sa Let_def)
  from ramp_breaks [OF assms(3) this] mn have m: "main ops prompt = Some ?fin" by simp
  from inv have i: "p = pressure k" "raised st = None"
    by (simp_all add: run_inv_def)
  have f: "files ?fin = files st" by simp
  note r = run_inv_files [OF inv f, unfolded st0]
  from assms(1) have c: "map_of (files st0) ''node_coordinates.csv'' \<noteq> None"
    by (elim main_setup_Inr) simp
  have z: "files ?fin = files st0 \<and> snapshot_files ?fin = []
           \<and> data_rows ?fin history_fname = []" if "k = 0"
  proof -
    from lh that st0 have "st = st0" by simp
    moreover from r(1,2) that have "snapshot_files ?fin = []"
      "data_rows ?fin (history_name target_nid) = []"
      by simp_all
    ultimately show ?thesis by (simp add: h)
  qed
  have "\<exists>fin. main ops prompt = Some fin \<and> raised fin = None
               \<and> analyses fin = Suc (analyses st)
               \<and> stdout fin = stdout st @ [Analysis_threw (pressure k) e]
               \<and> files fin = files st
               \<and> length (snapshot_files fin) = k
               \<and> length (data_rows fin history_fname) = k
               \<and> map_of (files fin) ''node_coordinates.csv''
                   = map_of (files st0) ''node_coordinates.csv''
               \<and> map_of (files st0) ''node_coordinates.csv'' \<noteq> None
               \<and> (k = 0 \<longrightarrow> files fin = files st0 \<and> snapshot_files fin = []
                           \<and> data_rows fin history_fname = [])"
    using m i r c z by (intro exI [of _ ?fin]) (simp add: h)
  with sa show ?thesis by blast
qed

theorem ramp_stops_on_engine_exception_witness:
  "\<exists>m m_in fin.
       create_model raising_engine False = Inr m
     \<and> solver_input m 0 = Inr m_in
     \<and> analyze_gen raising_engine 0 m_in 1 = Inl (EngineError ''analyze'')
     \<and> static_analysis raising_engine 0 m 0 = Inl (EngineError ''analyze'')
     \<and> main raising_engine (Inr 1) = Some fin \<and> raised fin = None
     \<and> analyses fin = 1
     \<and> last (stdout fin) = Analysis_threw 0 (EngineError ''analyze'')
     \<and> snapshot_files fin = [] \<and> data_rows fin (history_name 1) = []
     \<and> map_of (files fin) ''node_coordinates.csv'' \<noteq> None"
proof -
  obtain m where m: "create_model raising_engine False = Inr m"
    unfolding raising_engine_def by (rule stub_model)
  from main_setup_ok [OF m] obtain st0 where
    init: "main_setup raising_engine (Inr 1) = Inr (1, history_name 1, st0)"
    by blast
  have ls: "loop_state raising_engine (Inr 1) 0 = Some (1, history_name 1, 0, 1, st0)"
    unfolding loop_state_def init by simp
  from init have an: "analyses st0 = 0" by (elim main_setup_Inr)
  from solver_input_Inr [of m 0] obtain m_in where si: "solver_input m 0 = Inr m_in"
    by blast
  have ae: "analyze_gen raising_engine 0 m_in 1 = Inl (EngineError ''analyze'')"
    by (simp add: raising_engine_def stub_engine_def)
  from ae have ae': "analyze_gen raising_engine (analyses st0) m_in 1
      = Inl (EngineError ''analyze'')"
    by (simp add: an)
  from ramp_stops_on_engine_exception [OF init ls _ m si ae']
  obtain fin where "static_analysis raising_engine (analyses st0) m 0
      = Inl (EngineError ''analyze'')"
    "main raising_engine (Inr 1) = Some fin" "raised fin = None"
    "analyses fin = Suc (analyses st0)"
    "stdout fin = stdout st0 @ [Analysis_threw (pressure 0) (EngineError ''analyze'')]"
    "snapshot_files fin = []" "data_rows fin (history_name 1) = []"
    "map_of (files fin) ''node_coordinates.csv'' \<noteq> None"
    by auto
  with m si ae show ?thesis
    by (intro exI [of _ m] exI [of _ m_in] exI [of _ fin]) (simp add: an pressure_0)
qed

section \<open>The nonlinear branch\<close>







section \<open>History rows and a run on a missing node\<close>

lemma rounding_changes_pressure_7: "py_round (pressure 7) 3 \<noteq> pressure 7"
proof -
  have "(7093169413108531 / 2251799813685248 :: rat) \<noteq> 1773292353277133 / 562949953421312"
    by simp
  then show ?thesis
    unfolding rounded_7 unfolding pressure_7 .
qed

text \<open>
  C10: in every accepted step (the loop completes iteration \<open>k + 1\<close>), the analysis has been
  run with the accumulated pressure \<open>p\<close> and returned 0, and the row appended to the history
  file holds the iteration, \<open>round(p, 3)\<close> and the three displacements of the tracked node
  exactly as \<open>nodeDisp\<close> returned them; the snapshot file of the step holds the
  displacements of every node unrounded. The rounded value is not always \<open>p\<close>: it differs
  in the eighth step.
\<close>

theorem history_row_rounds_pressure:
  assumes "loop_state ops prompt k = Some (target_nid, history_fname, p, itr, st)"
    and "loop_state ops prompt (Suc k) = Some (target_nid', history_fname', p', itr', st')"
  shows "\<exists>m m' sol ux uy uz.
           create_model ops False = Inr m
         \<and> static_analysis ops (analyses st) m p = Inr (0, m', sol)
         \<and> nodeDisp sol target_nid 1 = Inr ux \<and> nodeDisp sol target_nid 2 = Inr uy
         \<and> nodeDisp sol target_nid 3 = Inr uz
         \<and> data_rows st' history_fname
             = data_rows st history_fname
               @ [[CInt itr, CFloat (py_round p 3), CFloat ux, CFloat uy, CFloat uz]]
         \<and> data_rows st' (snapshot_name itr)
             = map (\<lambda>nid. [CInt nid, CFloat (projr (nodeDisp sol nid 1)),
                              CFloat (projr (nodeDisp sol nid 2)),
                              CFloat (projr (nodeDisp sol nid 3))]) (getNodeTags m')
         \<and> (k = 7 \<longrightarrow> py_round p 3 \<noteq> p)"
proof -
  let ?t = target_nid
  let ?h = "history_name ?t"
  let ?d = "snapshot_name itr"
  let ?hdr = "[CStr ''Node'', CStr ''ux'', CStr ''uy'', CStr ''uz'']"
  from assms(1) obtain st0 where init: "main_setup ops prompt = Inr (?t, ?h, st0)"
    and h: "history_fname = ?h"
    and l: "loop_head ops ?t ?h (float_lit (45 / 100)) (0, 1, st0) k = Some (p, itr, st)"
    and inv: "run_inv st0 ?t k (p, itr, st)"
    by (rule loop_state_Some)
  from assms(2) obtain st0' where init': "main_setup ops prompt
      = Inr (target_nid', history_name target_nid', st0')"
    and l0: "loop_head ops target_nid' (history_name target_nid') (float_lit (45 / 100))
               (0, 1, st0') (Suc k) = Some (p', itr', st')"
    by (rule loop_state_Some)
  from init init' have "target_nid' = ?t" "st0' = st0" by simp_all
  note l' = l0 [unfolded this]
  from l' obtain p1 itr1 st1 where
    l1: "loop_head ops ?t ?h (float_lit (45 / 100)) (0, 1, st0) k = Some (p1, itr1, st1)"
    and b1: "ramp_body ops ?t ?h (float_lit (45 / 100)) p1 itr1 st1 = Inl (p', itr', st')"
    by (rule loop_head_Suc)
  from l l1 have "p1 = p" "itr1 = itr" "st1 = st" by simp_all
  note b = b1 [unfolded this]
  from b obtain m m' sol where m: "create_model ops False = Inr m"
    and sa: "static_analysis ops (analyses st) m p = Inr (0, m', sol)"
    and r: "record_step ?d ?h ?t m' sol (float_lit (45 / 100)) p itr
              (st\<lparr>analyses := Suc (analyses st)\<rparr>) = Inl (p', itr', st')"
    by (rule ramp_body_Inl)
  from r obtain fs ux uy uz where
    w: "write_disp_rows sol ?d (getNodeTags m')
          (writerow ?d ?hdr (open_w ?d (files (st\<lparr>analyses := Suc (analyses st)\<rparr>)))) = Inr fs"
    and u: "nodeDisp sol ?t 1 = Inr ux" "nodeDisp sol ?t 2 = Inr uy" "nodeDisp sol ?t 3 = Inr uz"
    and st': "st' = st\<lparr>analyses := Suc (analyses st)\<rparr>
                \<lparr>files := writerow ?h [CInt itr, CFloat (py_round p 3), CFloat ux, CFloat uy,
                                       CFloat uz] fs,
                 stdout := stdout (st\<lparr>analyses := Suc (analyses st)\<rparr>)
                           @ [Wrote_displacements ?d itr p, Recorded_disp ?t itr p]\<rparr>"
    by (rule record_step_Inl)
  let ?row = "[CInt itr, CFloat (py_round p 3), CFloat ux, CFloat uy, CFloat uz]"
  let ?fs0 = "writerow ?d ?hdr (open_w ?d (files st))"
  from w have w: "write_disp_rows sol ?d (getNodeTags m') ?fs0 = Inr fs" by simp
  from st' have f': "files st' = writerow ?h ?row fs" by simp
  have dh: "?d \<noteq> ?h" by (rule snapshot_neq_history)
  from write_disp_rows_keep [where sol = sol and f = ?d and nids = "getNodeTags m'" and fs = ?fs0]
  have keep: "map_of fs ?h = map_of ?fs0 ?h"
    unfolding w using dh by simp
  have "map_of ?fs0 ?h = map_of (files st) ?h"
    using dh by (simp add: map_of_writerow map_of_open_w)
  with keep have kh: "map_of fs ?h = map_of (files st) ?h" by simp
  from inv obtain hd rows where hr: "map_of (files st) ?h = Some (hd # rows)"
    unfolding run_inv_def by auto
  have "map_of (files st') ?h = Some ((hd # rows) @ [?row])"
    unfolding f' by (simp add: map_of_writerow kh hr)
  then have hist: "data_rows st' history_fname = data_rows st history_fname @ [?row]"
    unfolding h data_rows_def hr by simp
  have "map_of ?fs0 ?d = Some [?hdr]"
    by (simp add: map_of_writerow map_of_open_w)
  from write_disp_rows_content [OF w this]
  have "map_of fs ?d = Some ([?hdr] @ map (\<lambda>nid. [CInt nid, CFloat (projr (nodeDisp sol nid 1)),
                              CFloat (projr (nodeDisp sol nid 2)),
                              CFloat (projr (nodeDisp sol nid 3))]) (getNodeTags m'))" .
  then have "map_of (files st') ?d
      = Some (?hdr # map (\<lambda>nid. [CInt nid, CFloat (projr (nodeDisp sol nid 1)),
                              CFloat (projr (nodeDisp sol nid 2)),
                              CFloat (projr (nodeDisp sol nid 3))]) (getNodeTags m'))"
    unfolding f' using dh by (simp add: map_of_writerow)
  then have snap: "data_rows st' ?d
      = map (\<lambda>nid. [CInt nid, CFloat (projr (nodeDisp sol nid 1)),
                              CFloat (projr (nodeDisp sol nid 2)),
                              CFloat (projr (nodeDisp sol nid 3))]) (getNodeTags m')"
    unfolding data_rows_def by simp
  from inv have "p = pressure k" unfolding run_inv_def by simp
  then have rd: "k = 7 \<longrightarrow> py_round p 3 \<noteq> p"
    using rounding_changes_pressure_7 by blast
  from m sa u hist snap rd show ?thesis by blast
qed

theorem history_row_rounds_pressure_witness:
  "\<exists>ux uy uz st st'.
     loop_state converging_engine (Inr 1) 7 = Some (1, history_name 1, pressure 7, 8, st)
   \<and> loop_state converging_engine (Inr 1) 8 = Some (1, history_name 1, pressure 8, 9, st')
   \<and> data_rows st' (history_name 1)
       = data_rows st (history_name 1)
         @ [[CInt 8, CFloat (py_round (pressure 7) 3), CFloat ux, CFloat uy, CFloat uz]]
   \<and> py_round (pressure 7) 3 \<noteq> pressure 7"
proof -
  obtain m where m: "create_model converging_engine False = Inr m"
    unfolding converging_engine_def by (rule stub_model)
  from main_setup_ok [OF m] obtain st0 where
    init: "main_setup converging_engine (Inr 1) = Inr (1, history_name 1, st0)"
    by blast
  have acc: "\<forall>j<k. step_accepted converging_engine 1 j" for k
    unfolding converging_engine_def by (simp add: stub_step_accepted)
  from accepted_prefix [OF init acc, of 7] obtain st where
    "loop_head converging_engine 1 (history_name 1) (float_lit (45 / 100)) (0, 1, st0) 7
     = Some (pressure 7, int 7 + 1, st)"
    by auto
  then have a: "loop_state converging_engine (Inr 1) 7
      = Some (1, history_name 1, pressure 7, 8, st)"
    unfolding loop_state_def init by simp
  from accepted_prefix [OF init acc, of 8] obtain st' where
    "loop_head converging_engine 1 (history_name 1) (float_lit (45 / 100)) (0, 1, st0) 8
     = Some (pressure 8, int 8 + 1, st')"
    by auto
  then have "loop_state converging_engine (Inr 1) 8
      = Some (1, history_name 1, pressure 8, 9, st')"
    unfolding loop_state_def init by simp
  then have b: "loop_state converging_engine (Inr 1) (Suc 7)
      = Some (1, history_name 1, pressure 8, 9, st')"
    by (simp add: eval_nat_numeral)
  from history_row_rounds_pressure [OF a b] a b show ?thesis
    by (auto simp: eval_nat_numeral)
qed

text \<open>
  C1, the claim as first stated fails: with an engine whose analysis always returns 0 and a
  tracked node id (7) that the mesh (nodes 1 to 4) does not have, the first step writes its
  snapshot file, then \<open>nodeDisp\<close> raises outside the \<open>try\<close>; the exception leaves \<open>main\<close>
  after one analysis, with one snapshot file and no history row.
\<close>

theorem untracked_node_stops_run:
  "map_sum id fst (static_analysis converging_engine 0
       (projr (create_model converging_engine False)) 0) = Inr 0
   \<and> main converging_engine (Inr 7) \<noteq> None
   \<and> raised (the (main converging_engine (Inr 7))) = Some (EngineError ''nodeDisp'')
   \<and> analyses (the (main converging_engine (Inr 7))) = 1
   \<and> snapshot_files (the (main converging_engine (Inr 7))) = [snapshot_name 1]
   \<and> data_rows (the (main converging_engine (Inr 7))) (history_name 7) = []"
proof -
  let ?e = "stub_engine (\<lambda>n. Inr 0)"
  let ?h = "history_name 7"
  let ?d = "snapshot_name 1"
  let ?hdr = "[CStr ''Node'', CStr ''ux'', CStr ''uy'', CStr ''uz'']"
  obtain m where m: "create_model ?e False = Inr m"
    and tags: "getNodeTags m = [1, 2, 3, 4]"
    by (rule stub_model)
  let ?sol = "map (\<lambda>(t, c). (t, [0, 0, 0, 0, 0, 0 :: pyfloat])) (node_table m)"
  from main_setup_ok [OF m] obtain st0 where
    init: "main_setup ?e (Inr 7) = Inr (7, ?h, st0)"
    by blast
  have inv: "run_inv st0 7 0 (0, 1, st0)" by (rule run_inv_initial [OF init])
  then have a0: "analyses st0 = 0" and k0: "map fst (files st0) = [''node_coordinates.csv'', ?h]"
    unfolding run_inv_def by simp_all
  from inv have h0: "data_rows st0 ?h = []"
    unfolding run_inv_def data_rows_def by auto
  obtain m_in where "static_analysis ?e 0 m 0 =
       (case (Inr 0 :: py_exception + int) of
          Inl e \<Rightarrow> Inl e
        | Inr res \<Rightarrow> Inr (res, m_in, ?sol))"
    and nt: "node_table m_in = node_table m"
    by (rule stub_static [where f = "\<lambda>n. Inr 0" and n = 0 and m = m and p = 0])
  then have sa: "static_analysis ?e 0 m 0 = Inr (0, m_in, ?sol)" by simp
  have tags': "getNodeTags m_in = [1, 2, 3, 4]"
    using tags by (simp add: getNodeTags_def nt)
  from tags have "set (map fst (node_table m)) = set [1, 2, 3, 4]"
    by (simp add: getNodeTags_def)
  then have f: "fst ` set (node_table m) = {1, 2, 3, 4}" by simp
  have "\<And>nid. nid \<in> {1, 2, 3, 4} \<Longrightarrow> answered ?sol nid"
    by (simp add: answered_def stub_nodeDisp f)
  then have "list_all (answered ?sol) (getNodeTags m_in)"
    by (simp add: tags')
  from write_disp_rows_ok [OF this] obtain fs where
    w: "write_disp_rows ?sol ?d (getNodeTags m_in) (writerow ?d ?hdr (open_w ?d (files st0)))
        = Inr fs"
    by blast
  have miss: "nodeDisp ?sol 7 1 = Inl (EngineError ''nodeDisp'')"
    by (rule stub_nodeDisp_missing) (simp add: f)
  define fin where "fin = st0\<lparr>analyses := Suc 0, files := fs,
      stdout := stdout st0 @ [Wrote_displacements ?d 1 0],
      raised := Some (EngineError ''nodeDisp'')\<rparr>"
  have "ramp_body ?e 7 ?h (float_lit (45 / 100)) 0 1 st0
        = record_step ?d ?h 7 m_in ?sol (float_lit (45 / 100)) 0 1
            (st0\<lparr>analyses := Suc (analyses st0)\<rparr>)"
    by (rule ramp_body_accepted [OF m]) (simp add: a0 sa)
  also have "\<dots> = Inr fin"
    unfolding record_step_def fin_def by (simp add: w miss a0 Let_def)
  finally have "ramp ?e 7 ?h (float_lit (45 / 100)) 0 1 st0 = Some fin"
    by (intro ramp_breaks) simp_all
  then have mn: "main converging_engine (Inr 7) = Some fin"
    unfolding main_def converging_engine_def init by (simp add: Let_def)
  from write_disp_rows_keep [where sol = ?sol and f = ?d and nids = "getNodeTags m_in"
      and fs = "writerow ?d ?hdr (open_w ?d (files st0))"]
  have keys: "map fst fs = map fst (writerow ?d ?hdr (open_w ?d (files st0)))"
    and other: "map_of fs ?h = map_of (writerow ?d ?hdr (open_w ?d (files st0))) ?h"
    unfolding w using snapshot_neq_history [of 1 7] by simp_all
  have "?d \<noteq> ''node_coordinates.csv''" "?d \<noteq> ?h"
    using snapshot_neq_coord [of 1] snapshot_neq_history [of 1 7] by simp_all
  then have "map fst fs = [''node_coordinates.csv'', ?h, ?d]"
    unfolding keys by (simp add: keys_writerow keys_open_w k0)
  then have snaps: "snapshot_files fin = [?d]"
    unfolding snapshot_files_def fin_def
    using snapshot_prefix [of 1] coord_not_snapshot history_not_snapshot [of 7] by simp
  have "map_of fs ?h = map_of (files st0) ?h"
    unfolding other using snapshot_neq_history [of 1 7]
    by (simp add: map_of_writerow map_of_open_w)
  then have rows: "data_rows fin ?h = []"
    using h0 unfolding data_rows_def fin_def by simp
  have "map_sum id fst (static_analysis converging_engine 0
       (projr (create_model converging_engine False)) 0) = Inr 0"
    unfolding converging_engine_def m sum.sel sa by simp
  moreover have "raised fin = Some (EngineError ''nodeDisp'')" "analyses fin = 1"
    by (simp_all add: fin_def)
  ultimately show ?thesis
    unfolding mn using snaps rows by simp
qed

end
